theory Spec2Isabelle
  imports Main
begin

section \<open>JavaScript values and effects\<close>

text \<open>
  The values the orchestration code inspects: flags of the command line, the exit flag of
  \<^verbatim>\<open>resolve(exit)\<close>, the entries of the environment.  \<open>JObj\<close> stands for any object
  (arrays included); only its truthiness is looked at.
\<close>

datatype jsval = JUndefined | JNull | JBool bool | JNum int | JStr string | JObj

fun truthy :: "jsval \<Rightarrow> bool" where
  "truthy JUndefined = False"
| "truthy JNull = False"
| "truthy (JBool b) = b"
| "truthy (JNum n) = (n \<noteq> 0)"
| "truthy (JStr s) = (s \<noteq> [])"
| "truthy JObj = True"

text \<open>\<^verbatim>\<open>Array.prototype.join\<close> on an array of strings.\<close>

fun join :: "string \<Rightarrow> string list \<Rightarrow> string" where
  "join sep [] = []"
| "join sep [x] = x"
| "join sep (x # y # ys) = x @ sep @ join sep (y # ys)"

text \<open>
  A hook as a unit's configuration gives it (\<^verbatim>\<open>config.hook\<close>): missing, one string, or an
  array of strings.  An element of the hook list handed to \<^verbatim>\<open>subscribe\<close> is a string, or
  \<^verbatim>\<open>undefined\<close> (a missing hook wrapped in an array), or a nested array (the constructor of
  BaseService puts \<^verbatim>\<open>config.hook\<close> into the list as it is).
\<close>

datatype hook_config = HookAbsent | HookString string | HookArray "string list"

datatype hook_item = HookName string | HookUndefined | HookNested "string list"

text \<open>
  The function \<^verbatim>\<open>subscribe\<close> hands to the task manager: the bound \<^verbatim>\<open>init\<close> of the unit, or the
  arrow function of lines 95-105 of BaseService.js.
\<close>

datatype handler = InitHandler | SkipStub

datatype level = Log | Info | Warning | Error | Success

text \<open>The two partitions of the registry, and what a publish is asked for.\<close>

datatype category = Workers | Plugins

text \<open>
  The second argument of \<^verbatim>\<open>TaskManager.publish\<close>: the array of task names (workers), or the
  flag names joined into one string (plugins).
\<close>

datatype request = Tasks "string list" | Joined string

text \<open>
  What the code does to its collaborators, in the order it does it: a line on the logger, a
  subscription at the task manager, a completion signal \<^verbatim>\<open>TaskManager.resolve(name, exit)\<close>,
  a call of \<^verbatim>\<open>Harbor.mount\<close> for a category, a call of \<^verbatim>\<open>TaskManager.publish\<close>, a call
  of a task method of the earlier command line driver.
\<close>

datatype effect =
    Console level string
  | TM_subscribe string "hook_item list" handler
  | TM_resolve string jsval
  | Call_mount category
  | TM_publish category request
  | Call_task string

datatype error = TypeError string | FsError string | HarborError string

text \<open>
  How a call of an asynchronous handler ends: it returns (its promise is fulfilled), it
  throws (its promise is rejected), it stays pending for ever because a promise it awaits
  is never settled, or a callback of the file system throws an error nobody catches (which
  ends the process).
\<close>

datatype outcome = Returned | Threw error | Pending | Crashed error

section \<open>BaseService (src/Harbor/services/BaseService.js)\<close>

record environment =
  THEME_ENVIRONMENT :: jsval
  THEME_SRC :: string
  THEME_DIST :: string

text \<open>
  \<^verbatim>\<open>this.config\<close>: the hook and the entry object (its keys in the order of \<^verbatim>\<open>Object.keys\<close>,
  each with its glob pattern; \<open>None\<close> when the configuration has no entry).
\<close>

record service_config =
  config_hook :: hook_config
  config_entry :: "(string \<times> string) list option"

text \<open>
  The fields of a service the modelled methods read or write.  \<open>has_TaskManager\<close> says
  whether \<^verbatim>\<open>this.tooling.TaskManager\<close> is there; TaskManager.js is not among the sources, and
  an instance of it is taken to have the \<^verbatim>\<open>subscribe\<close> and \<^verbatim>\<open>resolve\<close> methods the services
  call.  \<open>acceptedEnvironments\<close> is \<^verbatim>\<open>this.options.acceptedEnvironments\<close>, \<open>entry\<close> is
  \<^verbatim>\<open>this.entry\<close>; \<open>None\<close> is \<^verbatim>\<open>undefined\<close>.
\<close>

record service =
  name :: string
  env :: environment
  config :: service_config
  has_TaskManager :: bool
  acceptedEnvironments :: "string list option"
  entry :: "string list list option"

text \<open>
  The \<^verbatim>\<open>options\<close> argument of the constructor, as far as \<^verbatim>\<open>defineAcceptedEnvironments\<close>
  reads it: the \<^verbatim>\<open>acceptedEnvironments\<close> property is missing, a string, or an array.
\<close>

datatype accepted_option = AcceptedAbsent | AcceptedString string | AcceptedArray "string list"

text \<open>Lines 168-180. \<open>None\<close> as argument: no options were given.\<close>

fun defineAcceptedEnvironments :: "accepted_option option \<Rightarrow> string list option" where
  "defineAcceptedEnvironments None = None"
| "defineAcceptedEnvironments (Some AcceptedAbsent) = None"
| "defineAcceptedEnvironments (Some (AcceptedString e)) = (if e = [] then None else Some [e])"
| "defineAcceptedEnvironments (Some (AcceptedArray es)) = Some es"

text \<open>
  Lines 151-160.  The inner \<^verbatim>\<open>Object.assign\<close> always writes the property
  \<^verbatim>\<open>acceptedEnvironments\<close> (with the value \<^verbatim>\<open>undefined\<close> when none was given), and the outer one
  copies it over the default \<^verbatim>\<open>[]\<close>.
\<close>

definition defineOptions :: "accepted_option option \<Rightarrow> service \<Rightarrow> service" where
  "defineOptions options s = s\<lparr>acceptedEnvironments := defineAcceptedEnvironments options\<rparr>"

text \<open>Lines 186-200; \<^verbatim>\<open>this.options\<close> is always an object once the constructor has run.\<close>

definition initIfAccepted :: "service \<Rightarrow> bool" where
  "initIfAccepted s =
     (case acceptedEnvironments s of
        None \<Rightarrow> True
      | Some acc \<Rightarrow>
          if acc = [] then True
          else if THEME_ENVIRONMENT (env s) \<in> JStr ` set acc then True
          else False)"

text \<open>Lines 62-72 and 77-79.\<close>

definition resolve :: "service \<Rightarrow> jsval \<Rightarrow> effect list" where
  "resolve s exit =
     (if has_TaskManager s
      then [Console Log (''Resolving service: '' @ name s), TM_resolve (name s) exit]
      else [Console Warning (''Unable to resolve '' @ name s @
              '', unable to find the Task Manager.'')])"

definition reject :: "service \<Rightarrow> effect list" where
  "reject s = resolve s (JBool True)"

text \<open>Lines 86-108.\<close>

definition subscribe :: "service \<Rightarrow> hook_item list \<Rightarrow> effect list" where
  "subscribe s hook =
     (if has_TaskManager s
      then [TM_subscribe (name s) hook (if initIfAccepted s then InitHandler else SkipStub)]
      else [])"

text \<open>
  The arrow function of lines 95-105, run on the state the service has when the task manager
  calls it.  \<^verbatim>\<open>join\<close> on a missing \<^verbatim>\<open>acceptedEnvironments\<close> would throw.
\<close>

definition skip_stub :: "service \<Rightarrow> effect list \<times> outcome" where
  "skip_stub s =
     (case acceptedEnvironments s of
        None \<Rightarrow> ([], Threw (TypeError ''acceptedEnvironments''))
      | Some acc \<Rightarrow>
          (Console Warning (name s @ '' will not be launched since it is only accepted for the ''
              @ join '', '' acc @ '' environments.'') # resolve s JUndefined, Returned))"

text \<open>
  Calling a subscribed handler.  \<open>unit_init\<close> is the \<^verbatim>\<open>init\<close> method of the unit's class.
\<close>

fun call_handler :: "(service \<Rightarrow> effect list \<times> outcome) \<Rightarrow> handler \<Rightarrow> service \<Rightarrow> effect list \<times> outcome" where
  "call_handler unit_init InitHandler s = unit_init s"
| "call_handler unit_init SkipStub s = skip_stub s"

text \<open>
  Modelled from the spec: the aggregation of the Publish Engine (section 4.2, step 4;
  services/TaskManager.js is not among the sources).  \<^verbatim>\<open>resolve(failed)\<close> with a truthy flag
  is a failure and puts the unit into \<^verbatim>\<open>exceptions\<close>, any other signal puts it into
  \<^verbatim>\<open>completed\<close>.
\<close>

fun exceptions_of :: "effect list \<Rightarrow> string list" where
  "exceptions_of [] = []"
| "exceptions_of (TM_resolve n e # es) = (if truthy e then n # exceptions_of es else exceptions_of es)"
| "exceptions_of (_ # es) = exceptions_of es"

fun completed_of :: "effect list \<Rightarrow> string list" where
  "completed_of [] = []"
| "completed_of (TM_resolve n e # es) = (if truthy e then completed_of es else n # completed_of es)"
| "completed_of (_ # es) = completed_of es"

subsection \<open>defineEntry\<close>

text \<open>
  The file system as \<^verbatim>\<open>defineEntry\<close> sees it: \<^verbatim>\<open>sync\<close> of the glob package, and the size
  \<^verbatim>\<open>statSync\<close> reports (\<open>None\<close>: \<^verbatim>\<open>statSync\<close> throws, as for a dangling link).
\<close>

record filesystem =
  glob_sync :: "string \<Rightarrow> string list"
  stat_size :: "string \<Rightarrow> nat option"

text \<open>
  The callback of lines 135-141 over the matches of one pattern.  It returns the path itself
  or \<^verbatim>\<open>null\<close>, so a match is kept when its size is positive and the path is a truthy string.
\<close>

fun filter_matches :: "filesystem \<Rightarrow> string list \<Rightarrow> error + (effect list \<times> string list)" where
  "filter_matches fs [] = Inr ([], [])"
| "filter_matches fs (e # es) =
     (case stat_size fs e of
        None \<Rightarrow> Inl (FsError e)
      | Some n \<Rightarrow>
          (case filter_matches fs es of
             Inl err \<Rightarrow> Inl err
           | Inr (logs, kept) \<Rightarrow>
               Inr ((if n = 0 then [Console Log (''Skipping empty entry: '' @ e)] else []) @ logs,
                    (if 0 < n \<and> e \<noteq> [] then e # kept else kept))))"

text \<open>The \<^verbatim>\<open>map\<close> of lines 128-142 over the entry names; \<open>base\<close> is the chosen root.\<close>

fun map_entries :: "filesystem \<Rightarrow> (string \<Rightarrow> string \<Rightarrow> string) \<Rightarrow> string \<Rightarrow> (string \<times> string) list
    \<Rightarrow> error + (effect list \<times> string list list)" where
  "map_entries fs path_join base [] = Inr ([], [])"
| "map_entries fs path_join base ((k, pattern) # rest) =
     (case filter_matches fs (glob_sync fs (path_join base pattern)) of
        Inl err \<Rightarrow> Inl err
      | Inr (logs, kept) \<Rightarrow>
          (case map_entries fs path_join base rest of
             Inl err \<Rightarrow> Inl err
           | Inr (logs', groups) \<Rightarrow> Inr (logs @ logs', kept # groups)))"

text \<open>
  Lines 117-144.  \<^verbatim>\<open>!this.config.entry instanceof Object\<close> is \<^verbatim>\<open>false instanceof Object\<close>, which
  is false, so only the first test and the test for no keys return early; both leave
  \<^verbatim>\<open>this.entry\<close> as it was.  \<open>path_join\<close> is \<^verbatim>\<open>join\<close> of the path module.
\<close>

definition defineEntry :: "filesystem \<Rightarrow> (string \<Rightarrow> string \<Rightarrow> string) \<Rightarrow> bool \<Rightarrow> service
    \<Rightarrow> error + (effect list \<times> service)" where
  "defineEntry fs path_join useDestination s =
     (case config_entry (config s) of
        None \<Rightarrow> Inr ([], s)
      | Some entries \<Rightarrow>
          if entries = [] then Inr ([], s)
          else
            (case map_entries fs path_join
                    (if useDestination then THEME_DIST (env s) else THEME_SRC (env s)) entries of
               Inl err \<Rightarrow> Inl err
             | Inr (logs, groups) \<Rightarrow>
                 Inr (logs, s\<lparr>entry := Some (filter (\<lambda>g. g \<noteq> []) groups)\<rparr>)))"

text \<open>Lines 35-49 of the constructor: the hook list the service subscribes with.\<close>

definition constructor_hook :: "string \<Rightarrow> hook_config \<Rightarrow> hook_item list" where
  "constructor_hook n h =
     (case h of
        HookAbsent \<Rightarrow> [HookName n]
      | HookString x \<Rightarrow> if x \<noteq> [] \<and> x \<noteq> n then [HookName n, HookName x] else [HookName n]
      | HookArray xs \<Rightarrow> [HookName n, HookNested xs])"

section \<open>String helpers\<close>

text \<open>Decimal digits of a natural number, and \<^verbatim>\<open>String(v)\<close> for the values above.\<close>

fun show_nat :: "nat \<Rightarrow> string" where
  "show_nat n = (if n < 10 then [char_of (48 + n)] else show_nat (n div 10) @ [char_of (48 + n mod 10)])"

definition show_int :: "int \<Rightarrow> string" where
  "show_int i = (if i < 0 then CHR ''-'' # show_nat (nat (- i)) else show_nat (nat i))"

fun js_string :: "jsval \<Rightarrow> string" where
  "js_string JUndefined = ''undefined''"
| "js_string JNull = ''null''"
| "js_string (JBool b) = (if b then ''true'' else ''false'')"
| "js_string (JNum n) = show_int n"
| "js_string (JStr s) = s"
| "js_string JObj = ''[object Object]''"

text \<open>\<^verbatim>\<open>s.split('::')[0]\<close>: the part of \<open>s\<close> before the first \<^verbatim>\<open>::\<close>, all of \<open>s\<close> when there is none.\<close>

fun base_name :: "string \<Rightarrow> string" where
  "base_name [] = []"
| "base_name [c] = [c]"
| "base_name (c # d # cs) = (if c = CHR '':'' \<and> d = CHR '':'' then [] else c # base_name (d # cs))"

text \<open>\<^verbatim>\<open>toString()\<close> of a thrown error.\<close>

fun error_string :: "error \<Rightarrow> string" where
  "error_string (TypeError m) = ''TypeError: '' @ m"
| "error_string (FsError m) = ''Error: '' @ m"
| "error_string (HarborError m) = ''Error: '' @ m"

section \<open>The run coordinator (src/Harbor/index.js)\<close>

text \<open>
  \<^verbatim>\<open>src/unnamed/part_001\<close> is an earlier revision of the same class.  It calls \<^verbatim>\<open>publishWorkers\<close>
  and \<^verbatim>\<open>publishPlugins\<close> where index.js calls \<^verbatim>\<open>publish\<close>, words its messages differently and
  does not log before \<^verbatim>\<open>validateResult\<close> throws; its tests and the order of its calls are
  those of index.js, which is the one modelled.
\<close>

text \<open>
  The loaded configuration: per category the configured units, in the order of
  \<^verbatim>\<open>Object.values\<close>.
\<close>

type_synonym harbor_config = "category \<Rightarrow> (string \<times> service_config) list"

text \<open>
  An entry of \<^verbatim>\<open>this.workers\<close> or \<^verbatim>\<open>this.plugins\<close>: its key, the \<^verbatim>\<open>type\<close> of the handler (the
  category whose configuration it reads) and the handler itself.
\<close>

type_synonym unit_instance = "string \<times> category \<times> service"

text \<open>
  Modelled from the spec: \<^verbatim>\<open>defineConfig\<close> (section 4.3; workers/Worker.js and
  plugins/Plugin.js are not among the sources) supplies the unit's configuration.
\<close>

definition defineConfig :: "service_config \<Rightarrow> service \<Rightarrow> service" where
  "defineConfig c s = s\<lparr>config := c\<rparr>"

text \<open>\<^verbatim>\<open>hook && ...\<close>: a missing hook and the empty string are falsy, every array is truthy.\<close>

fun hook_truthy :: "hook_config \<Rightarrow> bool" where
  "hook_truthy HookAbsent = False"
| "hook_truthy (HookString x) = (x \<noteq> [])"
| "hook_truthy (HookArray xs) = True"

text \<open>
  Lines 144 and 153 of \<^verbatim>\<open>mount\<close>: \<^verbatim>\<open>h\<close> is the hook itself when it is an array and the one-element
  array of it otherwise; the name is put in front when the hook is truthy and is not the name
  (an array is never \<^verbatim>\<open>===\<close> a string).
\<close>

definition mount_hook :: "string \<Rightarrow> hook_config \<Rightarrow> hook_item list" where
  "mount_hook n hook =
     (let h = (case hook of
                 HookAbsent \<Rightarrow> [HookUndefined]
               | HookString x \<Rightarrow> [HookName x]
               | HookArray xs \<Rightarrow> map HookName xs)
      in if hook_truthy hook \<and> hook \<noteq> HookString n then HookName n # h else h)"

text \<open>
  Lines 139-156.  The destructuring of line 143 throws when the category has no configuration
  for the key; an error of \<^verbatim>\<open>defineEntry\<close> ends the loop as well.  The effects of the units
  mounted before the error stay.
\<close>

fun mount :: "filesystem \<Rightarrow> (string \<Rightarrow> string \<Rightarrow> string) \<Rightarrow> harbor_config \<Rightarrow> unit_instance list
    \<Rightarrow> effect list \<times> (error + unit_instance list)" where
  "mount fs path_join cfg [] = ([], Inr [])"
| "mount fs path_join cfg ((key, ty, handler) # rest) =
     (case map_of (cfg ty) key of
        None \<Rightarrow> ([], Inl (TypeError ''Cannot destructure property hook''))
      | Some c \<Rightarrow>
          (case defineEntry fs path_join False (defineConfig c handler) of
             Inl err \<Rightarrow> ([], Inl err)
           | Inr (logs, handler') \<Rightarrow>
               (case mount fs path_join cfg rest of
                  (effs, Inl err) \<Rightarrow>
                    (logs @ subscribe handler' (mount_hook key (config_hook c)) @ effs, Inl err)
                | (effs, Inr rest') \<Rightarrow>
                    (logs @ subscribe handler' (mount_hook key (config_hook c)) @ effs,
                     Inr ((key, ty, handler') # rest')))))"

text \<open>What a publish cycle hands back (\<open>None\<close>: the property is missing).\<close>

record publish_result =
  completed :: "string list option"
  exceptions :: "string list option"

text \<open>\<^verbatim>\<open>xs && xs.length\<close>.\<close>

fun some_nonempty :: "string list option \<Rightarrow> bool" where
  "some_nonempty None = False"
| "some_nonempty (Some xs) = (xs \<noteq> [])"

text \<open>
  Lines 162-182.  \<open>ty\<close> is the text the second parameter is printed as (\<^verbatim>\<open>init\<close> passes none,
  so it reads \<^verbatim>\<open>undefined\<close>).
\<close>

definition validateResult :: "environment \<Rightarrow> publish_result \<Rightarrow> string \<Rightarrow> effect list \<times> outcome" where
  "validateResult e results ty =
     (if some_nonempty (exceptions results) \<and> THEME_ENVIRONMENT e \<noteq> JStr ''development''
      then
        (let msg = ''Not all '' @ ty @ '' have been completed correctly: ''
                     @ join '', '' (the (exceptions results))
         in ([Console Error msg], Threw (HarborError msg)))
      else
        ((if some_nonempty (completed results)
          then (if exceptions results = Some []
                then [Console Success (''Successfully completed: ''
                        @ join '', '' (the (completed results)))]
                else [])
          else if some_nonempty (exceptions results)
          then [Console Warning (''The following '' @ ty @ '' did not complete correctly: ''
                  @ join '', '' (the (exceptions results)))]
          else []),
         Returned))"

text \<open>
  The command line as \<^verbatim>\<open>Argv\<close> hands it over (common/Argv.js is not among the sources):
  \<open>task\<close> is the task argument (\<open>None\<close> when missing), \<open>args\<close> is the rest object of line 65
  with its keys in the order of \<^verbatim>\<open>Object.keys\<close>, \<open>customArgs\<close> are the keys of
  \<^verbatim>\<open>args.customArgs\<close>.
\<close>

record argv =
  task :: "string option"
  args :: "(string \<times> jsval) list"
  customArgs :: "string list"

text \<open>How the promise of \<^verbatim>\<open>TaskManager.publish\<close> ends.\<close>

datatype publish_outcome = Fulfilled publish_result | Rejected error | NeverSettles

text \<open>Lines 72-79: the task of the command line, or every worker hook named by a custom flag.\<close>

definition init_tasks :: "argv \<Rightarrow> string list \<Rightarrow> string list" where
  "init_tasks a workerHooks =
     (case task a of
        Some t \<Rightarrow> if t \<noteq> [] then [t]
                  else map base_name (filter (\<lambda>hook. base_name hook \<in> set (customArgs a)) workerHooks)
      | None \<Rightarrow> map base_name (filter (\<lambda>hook. base_name hook \<in> set (customArgs a)) workerHooks))"

text \<open>Line 98: the hooks of a configured plugin as an array.\<close>

fun hook_array :: "hook_config \<Rightarrow> string list" where
  "hook_array HookAbsent = []"
| "hook_array (HookString x) = (if x = [] then [] else [x])"
| "hook_array (HookArray xs) = xs"

text \<open>Lines 94-106: the flags that select plugins.\<close>

definition plugin_flags :: "(string \<times> service_config) list \<Rightarrow> (string \<times> jsval) list \<Rightarrow> string list" where
  "plugin_flags plugin_cfgs flags =
     map fst (filter (\<lambda>(arg, v). truthy v \<and>
        filter (\<lambda>(k, c). base_name arg \<in> set (hook_array (config_hook c))) plugin_cfgs \<noteq> []) flags)"

text \<open>The \<^verbatim>\<open>catch\<close> of lines 127-133: whatever was thrown inside the \<^verbatim>\<open>try\<close> is wrapped.\<close>

definition rethrow :: "error \<Rightarrow> outcome" where
  "rethrow e = Threw (HarborError (''Harbor encounterd an error and could not continue: '' @ error_string e))"

text \<open>
  One publish cycle inside the \<^verbatim>\<open>try\<close>: the call, the wait for its promise, \<^verbatim>\<open>validateResult\<close>.
  \<open>Returned\<close> means that the code after it runs.
\<close>

definition publish_cycle :: "environment \<Rightarrow> (category \<Rightarrow> request \<Rightarrow> publish_outcome) \<Rightarrow> category \<Rightarrow> request
    \<Rightarrow> effect list \<times> outcome" where
  "publish_cycle e publish cat req =
     (case publish cat req of
        NeverSettles \<Rightarrow> ([TM_publish cat req], Pending)
      | Rejected err \<Rightarrow> ([TM_publish cat req], rethrow err)
      | Fulfilled r \<Rightarrow>
          (case validateResult e r ''undefined'' of
             (effs, Threw err) \<Rightarrow> (TM_publish cat req # effs, rethrow err)
           | (effs, out) \<Rightarrow> (TM_publish cat req # effs, out)))"

text \<open>Lines 92-126: the plugin part of \<^verbatim>\<open>init\<close>.\<close>

definition plugin_phase :: "filesystem \<Rightarrow> (string \<Rightarrow> string \<Rightarrow> string) \<Rightarrow> environment \<Rightarrow> harbor_config
    \<Rightarrow> (category \<Rightarrow> request \<Rightarrow> publish_outcome) \<Rightarrow> unit_instance list \<Rightarrow> argv \<Rightarrow> effect list \<times> outcome" where
  "plugin_phase fs path_join e cfg publish plugins a =
     (let selected = plugin_flags (cfg Plugins) (args a) in
      if selected = [] then ([], Returned)
      else
        (case mount fs path_join cfg plugins of
           (effs, Inl err) \<Rightarrow> (Call_mount Plugins # effs, rethrow err)
         | (effs, Inr plugins') \<Rightarrow>
             (let (effs', out) = publish_cycle e publish Plugins (Joined (join '','' selected))
              in (Call_mount Plugins # effs
                    @ [Console Log (''Using '' @ show_nat (length selected) @ '' ''
                         @ (if length selected = 1 then ''plugin'' else ''plugins'') @ '' for ''
                         @ js_string (THEME_ENVIRONMENT e) @ ''...'')]
                    @ effs', out))))"

text \<open>
  Lines 64-134.  \<open>workerHooks\<close> is what \<^verbatim>\<open>TaskManager.workerHooks()\<close> returns after the workers
  were mounted, \<open>publish\<close> is \<^verbatim>\<open>TaskManager.publish\<close>.  The first \<^verbatim>\<open>mount\<close> stands outside the
  \<^verbatim>\<open>try\<close>, so its error is thrown as it is.
\<close>

definition Harbor_init :: "filesystem \<Rightarrow> (string \<Rightarrow> string \<Rightarrow> string) \<Rightarrow> environment \<Rightarrow> harbor_config
    \<Rightarrow> string list \<Rightarrow> (category \<Rightarrow> request \<Rightarrow> publish_outcome) \<Rightarrow> unit_instance list \<Rightarrow> unit_instance list \<Rightarrow> argv
    \<Rightarrow> effect list \<times> outcome" where
  "Harbor_init fs path_join e cfg workerHooks publish workers plugins a =
     (case mount fs path_join cfg workers of
        (effs, Inl err) \<Rightarrow> (Call_mount Workers # effs, Threw err)
      | (effs, Inr workers') \<Rightarrow>
          (let tasks = init_tasks a workerHooks;
               (effs1, out1) =
                 (if tasks \<noteq> [] then publish_cycle e publish Workers (Tasks tasks)
                  else ([Console Warning ''Harbor has not processed anything this time.''], Returned))
           in if out1 \<noteq> Returned then (Call_mount Workers # effs @ effs1, out1)
              else
                (let (effs2, out2) = plugin_phase fs path_join e cfg publish plugins a
                 in (Call_mount Workers # effs @ effs1 @ effs2, out2))))"

section \<open>Environment.define (src/Harbor/workers/StyleguideHelper.js, lines 400-457)\<close>

text \<open>
  \<^verbatim>\<open>parsed\<close> is \<^verbatim>\<open>process.env\<close> itself (line 429: \<^verbatim>\<open>const parsed = process.env || {}\<close>), not a
  copy of it.  The environment object of Node holds strings only: as its documentation says,
  assigning a property on \<^verbatim>\<open>process.env\<close> converts the value to a string.  So an assignment
  stores \<^verbatim>\<open>String(value)\<close>, and a read gives that string back (or \<^verbatim>\<open>undefined\<close> for a
  variable that is not set).
\<close>

type_synonym process_env = "string \<Rightarrow> string option"

definition env_get :: "process_env \<Rightarrow> string \<Rightarrow> jsval" where
  "env_get penv k = (case penv k of None \<Rightarrow> JUndefined | Some v \<Rightarrow> JStr v)"

definition env_set :: "process_env \<Rightarrow> string \<Rightarrow> jsval \<Rightarrow> process_env" where
  "env_set penv k v = penv(k \<mapsto> js_string v)"

text \<open>Lines 402-410, in the order of \<^verbatim>\<open>Object.keys\<close>.\<close>

definition defaults :: "(string \<times> jsval) list" where
  "defaults =
     [(''THEME_PORT'', JNum 8080),
      (''THEME_DEBUG'', JBool False),
      (''THEME_ENVIRONMENT'', JStr ''production''),
      (''THEME_STATIC_DIRECTORY'', JStr []),
      (''THEME_TEST_PHASE'', JStr ''test''),
      (''THEME_WEBSOCKET_PORT'', JNum 35729),
      (''THEME_AS_CLI'', JBool False)]"

text \<open>
  White space and digits of the ASCII range, \<^verbatim>\<open>toLowerCase\<close> on it, and \<^verbatim>\<open>parseInt(v, 10)\<close>:
  the text of the value, leading white space skipped, an optional sign, then the longest run
  of digits; \<open>None\<close> is \<^verbatim>\<open>NaN\<close>.
\<close>

definition is_space :: "char \<Rightarrow> bool" where
  "is_space c = ((of_char c :: nat) \<in> {9, 10, 11, 12, 13, 32})"

definition is_digit :: "char \<Rightarrow> bool" where
  "is_digit c = (48 \<le> (of_char c :: nat) \<and> (of_char c :: nat) \<le> 57)"

definition lower_char :: "char \<Rightarrow> char" where
  "lower_char c = (if 65 \<le> (of_char c :: nat) \<and> (of_char c :: nat) \<le> 90
                   then char_of ((of_char c :: nat) + 32) else c)"

definition toLowerCase :: "string \<Rightarrow> string" where
  "toLowerCase s = map lower_char s"

fun digits_value :: "nat \<Rightarrow> string \<Rightarrow> nat" where
  "digits_value acc [] = acc"
| "digits_value acc (c # cs) = digits_value (acc * 10 + ((of_char c :: nat) - 48)) cs"

definition parseInt :: "jsval \<Rightarrow> int option" where
  "parseInt v =
     (let s = dropWhile is_space (js_string v);
          neg = (s \<noteq> [] \<and> hd s = CHR ''-'');
          r = (if s \<noteq> [] \<and> (hd s = CHR ''-'' \<or> hd s = CHR ''+'') then tl s else s);
          ds = takeWhile is_digit r
      in if ds = [] then None
         else Some (if neg then - int (digits_value 0 ds) else int (digits_value 0 ds)))"

text \<open>The body of the loop of lines 432-452 for one default.\<close>

definition inherit_default :: "process_env \<Rightarrow> string \<times> jsval \<Rightarrow> process_env" where
  "inherit_default parsed d =
     (let defaultOption = fst d;
          p1 = (if parsed defaultOption = None
                then env_set parsed defaultOption
                       (case parseInt (snd d) of
                          None \<Rightarrow> snd d
                        | Some n \<Rightarrow> if n \<noteq> 0 then JNum n else snd d)
                else parsed);
          p2 = (case env_get p1 defaultOption of
                  JStr v \<Rightarrow> if toLowerCase v \<in> set [''false'', ''0'']
                            then env_set p1 defaultOption (JBool False) else p1
                | _ \<Rightarrow> p1);
          p3 = (case env_get p2 defaultOption of
                  JStr v \<Rightarrow> if toLowerCase v \<in> set [''true'', ''1'']
                            then env_set p2 defaultOption (JBool True) else p2
                | _ \<Rightarrow> p2)
      in p3)"

text \<open>
  Lines 418-457; \<open>penv\<close> is the process environment after the optional \<^verbatim>\<open>.env\<close> file was
  loaded into it.
\<close>

definition Environment_define :: "process_env \<Rightarrow> process_env" where
  "Environment_define penv = foldl inherit_default penv defaults"

section \<open>JsOptimizer (src/Harbor/plugins/JsOptimizer.js)\<close>

text \<open>
  plugins/Plugin.js is not among the sources; the plugin is read as a BaseService, whose
  \<^verbatim>\<open>resolve\<close> and \<^verbatim>\<open>reject\<close> it calls through \<^verbatim>\<open>super\<close>.

  What \<^verbatim>\<open>minify\<close> of uglify-js gives: the code (empty when there is none) and the error.
\<close>

record minified =
  min_code :: string
  min_error :: "string option"

text \<open>How the promise of one file (lines 36-65) ends.\<close>

datatype file_end = Done | Stuck | Uncaught error

text \<open>
  The callback of \<^verbatim>\<open>fs.readFile\<close> (lines 39-64) with \<^verbatim>\<open>write\<close> (lines 73-93) for one path.
  \<open>read_file\<close> gives the data, or \<open>None\<close> when the read fails (an exception and no data); a
  buffer is truthy even when it is empty.  Without data the callback resolves the unit and
  returns, and \<^verbatim>\<open>done\<close> is never called.  \<^verbatim>\<open>write\<close> returns what \<^verbatim>\<open>reject\<close> returns
  (\<^verbatim>\<open>undefined\<close>) for an empty path or blob, so \<^verbatim>\<open>.then\<close> on it throws inside the callback.
  The callback of \<^verbatim>\<open>fs.writeFile\<close> ignores its error and calls \<^verbatim>\<open>cb\<close>.  (The text of an
  exception that is logged is not modelled; the line names the path.)
\<close>

definition optimize_file :: "service \<Rightarrow> (string \<Rightarrow> string option) \<Rightarrow> (string \<Rightarrow> minified) \<Rightarrow> string
    \<Rightarrow> effect list \<times> file_end" where
  "optimize_file s read_file minify path =
     (case read_file path of
        None \<Rightarrow> (Console Error (''read failed: '' @ path) # resolve s JUndefined, Stuck)
      | Some data \<Rightarrow>
          (let result = minify data;
               logs = (if min_error result \<noteq> None
                       then [Console Error (''Minify exception encountered for '' @ path @ '': ''
                               @ the (min_error result)),
                             Console Info (''The original state for '' @ path @ '' will be used instead.'')]
                       else []);
               blob = (if min_error result \<noteq> None then data else min_code result)
           in if path = []
              then (logs @ Console Error ''Unable to optimize script, no path has been defined.''
                      # reject s,
                    Uncaught (TypeError ''Cannot read properties of undefined (reading then)''))
              else if blob = []
              then (logs @ Console Error (''Unable to optimize script, no data has been defined for ''
                        @ path @ ''.'')
                      # reject s,
                    Uncaught (TypeError ''Cannot read properties of undefined (reading then)''))
              else (logs @ [Console Log (''File optimized: '' @ path)], Done)))"

text \<open>
  The callbacks of all files.  The code does not fix the order in which the file system
  answers; they are run in the order of the entry.  An uncaught error ends the process, so
  no later callback runs.
\<close>

fun optimize_files :: "service \<Rightarrow> (string \<Rightarrow> string option) \<Rightarrow> (string \<Rightarrow> minified) \<Rightarrow> string list
    \<Rightarrow> effect list \<times> file_end" where
  "optimize_files s read_file minify [] = ([], Done)"
| "optimize_files s read_file minify (p # ps) =
     (case optimize_file s read_file minify p of
        (effs, Uncaught e) \<Rightarrow> (effs, Uncaught e)
      | (effs, Stuck) \<Rightarrow>
          (case optimize_files s read_file minify ps of
             (effs', Uncaught e) \<Rightarrow> (effs @ effs', Uncaught e)
           | (effs', _) \<Rightarrow> (effs @ effs', Stuck))
      | (effs, Done) \<Rightarrow>
          (case optimize_files s read_file minify ps of
             (effs', r) \<Rightarrow> (effs @ effs', r)))"

text \<open>
  Lines 17-27.  Every \<^verbatim>\<open>optimizeCwd\<close> starts the reads of its paths (logging each) before any
  callback runs; the final \<^verbatim>\<open>resolve\<close> is reached when every file has called \<^verbatim>\<open>done\<close>.
\<close>

definition JsOptimizer_init :: "(string \<Rightarrow> string option) \<Rightarrow> (string \<Rightarrow> minified) \<Rightarrow> service
    \<Rightarrow> effect list \<times> outcome" where
  "JsOptimizer_init read_file minify s =
     (case entry s of
        None \<Rightarrow> (resolve s JUndefined, Returned)
      | Some groups \<Rightarrow>
          if groups = [] then (resolve s JUndefined, Returned)
          else
            (let paths = concat groups;
                 started = map (\<lambda>p. Console Log (''Optimizing: '' @ p)) paths
             in case optimize_files s read_file minify paths of
                  (effs, Done) \<Rightarrow> (started @ effs @ resolve s JUndefined, Returned)
                | (effs, Stuck) \<Rightarrow> (started @ effs, Pending)
                | (effs, Uncaught e) \<Rightarrow> (started @ effs, Crashed e)))"

section \<open>StyleguideHelper (src/Harbor/workers/StyleguideHelper.js, lines 1-121)\<close>

text \<open>
  \<^verbatim>\<open>src/unnamed/part_000\<close> is an earlier revision: its \<^verbatim>\<open>init\<close> is lines 27-29 of this one, and its
  queue of writes ends in \<^verbatim>\<open>.then(done)\<close> with no \<^verbatim>\<open>.catch\<close>.
\<close>

text \<open>
  workers/Worker.js is not among the sources; the worker is read as a BaseService.  What
  \<^verbatim>\<open>setupInitialStories\<close> takes from outside: \<open>prepare\<close> is the synchronous part of lines 45-87
  for one entry group (directories made, templates built, stories that exist skipped); it
  throws, or gives its log lines and the destinations queued for writing.  \<open>write_throws\<close>
  says that \<^verbatim>\<open>fs.writeFile\<close> throws at once for a destination, \<open>write_warns\<close> that its callback
  reports an exception.
\<close>

record story_world =
  prepare :: "string list \<Rightarrow> error + (effect list \<times> string list)"
  write_throws :: "string \<Rightarrow> bool"
  write_warns :: "string \<Rightarrow> bool"
  destinationDirectory :: string

text \<open>
  Lines 92-106, one queued write.  An error thrown by \<^verbatim>\<open>fs.writeFile\<close> is caught and logged,
  and \<^verbatim>\<open>callback\<close> is never called; otherwise the callback of the write logs and calls it.
\<close>

definition write_story :: "story_world \<Rightarrow> string \<Rightarrow> effect list \<times> bool" where
  "write_story w destination =
     (if write_throws w destination
      then ([Console Warning (''write failed: '' @ destination)], False)
      else ((if write_warns w destination then [Console Warning (''write failed: '' @ destination)] else [])
              @ [Console Log (''Styleguide entry template created: '' @ destination)], True))"

text \<open>
  Lines 38-121.  No promise of the queue can be rejected (its executor catches what is
  thrown), so the handler of \<^verbatim>\<open>.catch\<close> (lines 109-112) does not run, and \<^verbatim>\<open>done\<close> is called once
  every queued write has called back.  An error thrown in the executor itself rejects the
  promise.
\<close>

definition setupInitialStories :: "story_world \<Rightarrow> string list \<Rightarrow> effect list \<times> outcome" where
  "setupInitialStories w grp =
     (if grp = [] then ([], Returned)
      else
        (case prepare w grp of
           Inl err \<Rightarrow> ([], Threw err)
         | Inr (logs, queue) \<Rightarrow>
             (let writes = map (write_story w) queue in
              if list_all snd writes
              then (logs @ concat (map fst writes)
                      @ [Console Info (''Created '' @ show_nat (length queue)
                           @ '' initial styleguide entries: '' @ destinationDirectory w)],
                    Returned)
              else (logs @ concat (map fst writes), Pending))))"

text \<open>\<^verbatim>\<open>Promise.all\<close> over the groups: rejected with the first rejection, else pending when one is.\<close>

fun all_settled :: "outcome list \<Rightarrow> outcome" where
  "all_settled [] = Returned"
| "all_settled (Returned # os) = all_settled os"
| "all_settled (Threw e # os) = Threw e"
| "all_settled (Crashed e # os) = Crashed e"
| "all_settled (Pending # os) =
     (case all_settled os of Threw e \<Rightarrow> Threw e | Crashed e \<Rightarrow> Crashed e | _ \<Rightarrow> Pending)"

text \<open>
  Lines 22-30.  \<^verbatim>\<open>this.entry.map\<close> throws when the entry was never defined.  (The lookup of the
  alias option in lines 23-25 has no part in the signalling and is left out.)
\<close>

definition StyleguideHelper_init :: "story_world \<Rightarrow> service \<Rightarrow> effect list \<times> outcome" where
  "StyleguideHelper_init w s =
     (case entry s of
        None \<Rightarrow> ([], Threw (TypeError ''Cannot read properties of undefined (reading map)''))
      | Some groups \<Rightarrow>
          (let runs = map (setupInitialStories w) groups in
           case all_settled (map snd runs) of
             Returned \<Rightarrow> (concat (map fst runs) @ resolve s JUndefined, Returned)
           | out \<Rightarrow> (concat (map fst runs), out)))"

text \<open>The completion signals among the effects of a handler.\<close>

fun signals :: "effect list \<Rightarrow> jsval list" where
  "signals [] = []"
| "signals (TM_resolve n e # es) = e # signals es"
| "signals (_ # es) = signals es"

section \<open>The earlier command line driver (src/bin/Harbor.js, lines 1-106)\<close>

text \<open>\<^verbatim>\<open>split(',')\<close> and \<^verbatim>\<open>trim()\<close> (white space of the ASCII range).\<close>

fun split_on :: "char \<Rightarrow> string \<Rightarrow> string list" where
  "split_on sep [] = [[]]"
| "split_on sep (c # cs) =
     (if c = sep then [] # split_on sep cs
      else (case split_on sep cs of
              [] \<Rightarrow> [[c]]
            | w # ws \<Rightarrow> (c # w) # ws))"

definition trim :: "string \<Rightarrow> string" where
  "trim s = rev (dropWhile is_space (rev (dropWhile is_space s)))"

text \<open>
  The callback of lines 42-52 is an \<^verbatim>\<open>async\<close> function handed to \<^verbatim>\<open>forEach\<close>.  \<^verbatim>\<open>forEach\<close> calls
  it for one name after the other and drops the promise it returns.  Each call runs up to
  its \<^verbatim>\<open>await\<close>: it logs, calls the task method, and is suspended; what follows the \<^verbatim>\<open>await\<close>
  (line 48) runs in a later turn of the scheduler, once the awaited value is there, and so
  never before \<^verbatim>\<open>forEach\<close> has gone through all names.  When the method throws, the promise of
  the callback is rejected and line 48 is never reached.

  \<open>is_function\<close> says whether \<^verbatim>\<open>typeof this[name] === 'function'\<close>, \<open>throws\<close> whether the call of
  the method throws.  The result is the trace of the synchronous run and the names whose
  callback is suspended at its \<^verbatim>\<open>await\<close>.
\<close>

fun dispatch :: "(string \<Rightarrow> bool) \<Rightarrow> (string \<Rightarrow> bool) \<Rightarrow> string list \<Rightarrow> effect list \<times> string list" where
  "dispatch is_function throws [] = ([], [])"
| "dispatch is_function throws (n # ns) =
     (case dispatch is_function throws ns of
        (effs, waiting) \<Rightarrow>
          if is_function n
          then (Console Info (''Running task: '' @ n) # Call_task n # effs,
                if throws n then waiting else n # waiting)
          else (Console Warning (''Finished: '' @ n @ ''.'') # effs, waiting))"

text \<open>Lines 31-54.\<close>

definition bin_init :: "(string \<Rightarrow> bool) \<Rightarrow> (string \<Rightarrow> bool) \<Rightarrow> string option \<Rightarrow> effect list \<times> string list" where
  "bin_init is_function throws tk =
     (case tk of
        None \<Rightarrow> ([], [])
      | Some t \<Rightarrow> if t = [] then ([], [])
                  else dispatch is_function throws (map trim (split_on CHR '','' t)))"

text \<open>Line 48, run when the awaited value of a suspended callback is there.\<close>

definition resume :: "string \<Rightarrow> effect list" where
  "resume n = [Console Success (''Done - '' @ n)]"

text \<open>
  The whole trace of a run: the synchronous part, then the suspended callbacks in the
  order \<open>settled\<close> in which their awaited values arrive (a callback whose method never
  settles is not in it).
\<close>

definition bin_trace :: "(string \<Rightarrow> bool) \<Rightarrow> (string \<Rightarrow> bool) \<Rightarrow> string option \<Rightarrow> string list \<Rightarrow> effect list" where
  "bin_trace is_function throws tk settled =
     fst (bin_init is_function throws tk)
       @ concat (map resume (filter (\<lambda>n. n \<in> set (snd (bin_init is_function throws tk))) settled))"

text \<open>
  What the comment of line 41 describes: every task run to completion before the next one
  starts.
\<close>

fun sequential_trace :: "(string \<Rightarrow> bool) \<Rightarrow> (string \<Rightarrow> bool) \<Rightarrow> string list \<Rightarrow> effect list" where
  "sequential_trace is_function throws [] = []"
| "sequential_trace is_function throws (n # ns) =
     (if is_function n
      then Console Info (''Running task: '' @ n) # Call_task n
             # (if throws n then [] else resume n) @ sequential_trace is_function throws ns
      else Console Warning (''Finished: '' @ n @ ''.'') # sequential_trace is_function throws ns)"

text \<open>
  Observers of a trace: the call of a task method, the line logged after the \<^verbatim>\<open>await\<close>, and
  the property that no task method is called once any callback has got past its \<^verbatim>\<open>await\<close>.
\<close>

fun is_call :: "effect \<Rightarrow> bool" where
  "is_call (Call_task n) = True"
| "is_call _ = False"

fun is_done :: "effect \<Rightarrow> bool" where
  "is_done (Console Success m) = True"
| "is_done _ = False"

fun calls_first :: "effect list \<Rightarrow> bool" where
  "calls_first [] = True"
| "calls_first (e # es) = ((if is_done e then \<not> list_ex is_call es else True) \<and> calls_first es)"

section \<open>Concrete inputs\<close>

text \<open>
  The plugin \<^verbatim>\<open>JsOptimizer\<close> as the constructor of Harbor sets it up (accepted for production
  only), run in a development environment, with two scripts in its entry.
\<close>

definition js_optimizer :: service where
  "js_optimizer =
     \<lparr>name = ''JsOptimizer'',
      env = \<lparr>THEME_ENVIRONMENT = JStr ''development'', THEME_SRC = ''src'', THEME_DIST = ''dist''\<rparr>,
      config = \<lparr>config_hook = HookString ''minify'', config_entry = None\<rparr>,
      has_TaskManager = True,
      acceptedEnvironments = Some [''production''],
      entry = Some [[''a.js'', ''b.js'']]\<rparr>"

text \<open>A minifier that hands the text back, and a production environment.\<close>

definition minify_id :: "string \<Rightarrow> minified" where
  "minify_id d = \<lparr>min_code = d, min_error = None\<rparr>"

definition production :: environment where
  "production = \<lparr>THEME_ENVIRONMENT = JStr ''production'', THEME_SRC = ''src'', THEME_DIST = ''dist''\<rparr>"

definition development :: environment where
  "development = \<lparr>THEME_ENVIRONMENT = JStr ''development'', THEME_SRC = ''src'', THEME_DIST = ''dist''\<rparr>"

text \<open>
  A source tree with one script, one empty script and one empty stylesheet, and a worker
  configured with an entry for the scripts and one for the stylesheets.
\<close>

definition disk :: filesystem where
  "disk = \<lparr>glob_sync = (\<lambda>p. if p = ''src/js/*.js'' then [''src/js/a.js'', ''src/js/empty.js'']
                            else if p = ''src/css/*.css'' then [''src/css/empty.css''] else []),
           stat_size = (\<lambda>p. if p = ''src/js/a.js'' then Some 10 else Some 0)\<rparr>"

definition slash_join :: "string \<Rightarrow> string \<Rightarrow> string" where
  "slash_join a b = a @ ''/'' @ b"

definition js_compiler :: service where
  "js_compiler =
     \<lparr>name = ''JsCompiler'', env = production,
      config = \<lparr>config_hook = HookString ''javascripts'',
                config_entry = Some [(''main'', ''js/*.js''), (''styles'', ''css/*.css'')]\<rparr>,
      has_TaskManager = True, acceptedEnvironments = None, entry = None\<rparr>"

text \<open>
  A run of the coordinator: the worker \<^verbatim>\<open>SassCompiler\<close> (hook \<^verbatim>\<open>stylesheets\<close>) and the plugin
  \<^verbatim>\<open>Watcher\<close> (hook \<^verbatim>\<open>watch\<close>), the command line \<^verbatim>\<open>--task=stylesheets --watch\<close>, and a task
  manager whose workers cycle reports that \<^verbatim>\<open>SassCompiler\<close> failed.
\<close>

definition sass_compiler :: service where
  "sass_compiler =
     \<lparr>name = ''SassCompiler'', env = production,
      config = \<lparr>config_hook = HookAbsent, config_entry = None\<rparr>,
      has_TaskManager = True, acceptedEnvironments = None, entry = None\<rparr>"

definition watcher :: service where
  "watcher =
     \<lparr>name = ''Watcher'', env = production,
      config = \<lparr>config_hook = HookAbsent, config_entry = None\<rparr>,
      has_TaskManager = True, acceptedEnvironments = Some [''development''], entry = None\<rparr>"

definition harbor_cfg :: harbor_config where
  "harbor_cfg ty =
     (case ty of
        Workers \<Rightarrow> [(''SassCompiler'', \<lparr>config_hook = HookString ''stylesheets'', config_entry = None\<rparr>)]
      | Plugins \<Rightarrow> [(''Watcher'', \<lparr>config_hook = HookString ''watch'', config_entry = None\<rparr>)])"

definition command_line :: argv where
  "command_line =
     \<lparr>task = Some ''stylesheets'',
      args = [(''watch'', JBool True), (''customArgs'', JObj)],
      customArgs = []\<rparr>"

definition sass_fails :: "category \<Rightarrow> request \<Rightarrow> publish_outcome" where
  "sass_fails cat req =
     (case cat of
        Workers \<Rightarrow> Fulfilled \<lparr>completed = Some [''Cleaner''], exceptions = Some [''SassCompiler'']\<rparr>
      | Plugins \<Rightarrow> Fulfilled \<lparr>completed = Some [''Watcher''], exceptions = Some []\<rparr>)"

text \<open>
  The task methods the class of src/bin/Harbor.js declares (lines 61-103).  \<^verbatim>\<open>javascripts\<close>
  throws: it reads \<^verbatim>\<open>this.JsCompiler\<close>, and the constructor sets \<^verbatim>\<open>this.JSCompiler\<close>.
\<close>

definition task_methods :: "string \<Rightarrow> bool" where
  "task_methods n = (n \<in> set [''clean'', ''sync'', ''stylesheets'', ''javascripts'', ''serve''])"

definition task_throws :: "string \<Rightarrow> bool" where
  "task_throws n = (n = ''javascripts'')"

text \<open>
  A worker without entry configuration, whose \<^verbatim>\<open>this.entry\<close> was never defined, and a world in
  which every story is prepared and written without an error.
\<close>

definition styleguide_helper :: service where
  "styleguide_helper =
     \<lparr>name = ''StyleguideHelper'', env = production,
      config = \<lparr>config_hook = HookString ''styleguide'', config_entry = None\<rparr>,
      has_TaskManager = True, acceptedEnvironments = None, entry = None\<rparr>"

definition story_files :: story_world where
  "story_files =
     \<lparr>prepare = (\<lambda>g. Inr ([], map (\<lambda>p. p @ ''.stories.js'') g)),
      write_throws = (\<lambda>d. False),
      write_warns = (\<lambda>d. False),
      destinationDirectory = []\<rparr>"

text \<open>A worker whose configuration has no hook.\<close>

definition cleaner :: service where
  "cleaner =
     \<lparr>name = ''Cleaner'', env = production,
      config = \<lparr>config_hook = HookAbsent, config_entry = None\<rparr>,
      has_TaskManager = True, acceptedEnvironments = None, entry = None\<rparr>"

definition hookless_cfg :: harbor_config where
  "hookless_cfg ty =
     (case ty of
        Workers \<Rightarrow> [(''Cleaner'', \<lparr>config_hook = HookAbsent, config_entry = None\<rparr>)]
      | Plugins \<Rightarrow> [])"

text \<open>
  A file system on which \<^verbatim>\<open>a.js\<close> cannot be read and every other script holds a comment only,
  and the minifier on such a script: no code, no error.
\<close>

definition first_unreadable :: "string \<Rightarrow> string option" where
  "first_unreadable p = (if p = ''a.js'' then None else Some ''/* notes */'')"

definition minify_comment :: "string \<Rightarrow> minified" where
  "minify_comment d = \<lparr>min_code = [], min_error = None\<rparr>"

section \<open>The environment gate\<close>

lemma resolve_signal:
  "has_TaskManager s \<Longrightarrow>
     resolve s x = [Console Log (''Resolving service: '' @ name s), TM_resolve (name s) x]"
  by (simp add: resolve_def)

text \<open>
  What the constructor makes of its options (Harbor passes \<^verbatim>\<open>{ acceptedEnvironments: 'production' }\<close>
  or nothing), and when the gate lets a unit through.
\<close>

lemma constructor_options:
  "acceptedEnvironments (defineOptions (Some (AcceptedString ''production'')) s) = Some [''production'']"
  "acceptedEnvironments (defineOptions (Some AcceptedAbsent) s) = None"
  "acceptedEnvironments (defineOptions None s) = None"
  by (simp_all add: defineOptions_def)

lemma gate_accepts:
  "acceptedEnvironments s = None \<or> acceptedEnvironments s = Some []
     \<or> (\<exists>acc. acceptedEnvironments s = Some acc \<and> THEME_ENVIRONMENT (env s) \<in> JStr ` set acc)
   \<Longrightarrow> initIfAccepted s"
  by (auto simp: initIfAccepted_def)

text \<open>
  Claim C2.  A unit that is registered (its tooling has the task manager) with a non-empty
  \<^verbatim>\<open>acceptedEnvironments\<close> that does not hold the current environment subscribes the stub and
  not its \<^verbatim>\<open>init\<close>.  Whenever the stub is called later, whatever the \<^verbatim>\<open>init\<close> of the unit is and
  whatever environment the service then has (the gate is not asked again), it logs the skip
  notice and signals \<^verbatim>\<open>resolve\<close> with no failure flag, and nothing else; so the unit is counted
  as completed and not as an exception.
\<close>

theorem gate_stub_signals_success:
  assumes "has_TaskManager s" and "acceptedEnvironments s = Some acc" and "acc \<noteq> []"
    and "THEME_ENVIRONMENT (env s) \<notin> JStr ` set acc"
  shows "subscribe s hook = [TM_subscribe (name s) hook SkipStub]
     \<and> call_handler unit_init SkipStub (s\<lparr>env := e'\<rparr>) =
         ([Console Warning (name s @ '' will not be launched since it is only accepted for the ''
             @ join '', '' acc @ '' environments.''),
           Console Log (''Resolving service: '' @ name s),
           TM_resolve (name s) JUndefined], Returned)
     \<and> exceptions_of (fst (call_handler unit_init SkipStub (s\<lparr>env := e'\<rparr>))) = []
     \<and> completed_of (fst (call_handler unit_init SkipStub (s\<lparr>env := e'\<rparr>))) = [name s]"
proof -
  have gate: "\<not> initIfAccepted s"
    using assms by (simp add: initIfAccepted_def)
  have sub: "subscribe s hook = [TM_subscribe (name s) hook SkipStub]"
    using assms(1) gate by (simp add: subscribe_def)
  have run: "call_handler unit_init SkipStub (s\<lparr>env := e'\<rparr>) =
         ([Console Warning (name s @ '' will not be launched since it is only accepted for the ''
             @ join '', '' acc @ '' environments.''),
           Console Log (''Resolving service: '' @ name s),
           TM_resolve (name s) JUndefined], Returned)"
    using assms(1,2) by (simp add: skip_stub_def resolve_def)
  show ?thesis
    by (simp only: sub run) simp
qed

theorem gate_stub_signals_success_witness:
  "has_TaskManager js_optimizer \<and> acceptedEnvironments js_optimizer = Some [''production'']
   \<and> THEME_ENVIRONMENT (env js_optimizer) \<notin> JStr ` set [''production'']
   \<and> subscribe js_optimizer [HookName ''JsOptimizer'', HookName ''minify'']
       = [TM_subscribe ''JsOptimizer'' [HookName ''JsOptimizer'', HookName ''minify''] SkipStub]
   \<and> completed_of (fst (call_handler (JsOptimizer_init (\<lambda>p. None) minify_id) SkipStub
        (js_optimizer\<lparr>env := production\<rparr>))) = [''JsOptimizer'']
   \<and> exceptions_of (fst (call_handler (JsOptimizer_init (\<lambda>p. None) minify_id) SkipStub
        (js_optimizer\<lparr>env := production\<rparr>))) = []"
proof -
  have a: "has_TaskManager js_optimizer" by (simp add: js_optimizer_def)
  have b: "acceptedEnvironments js_optimizer = Some [''production'']" by (simp add: js_optimizer_def)
  have c: "[''production''] \<noteq> ([] :: string list)" by simp
  have d: "THEME_ENVIRONMENT (env js_optimizer) \<notin> JStr ` set [''production'']"
    by (simp add: js_optimizer_def)
  have n: "name js_optimizer = ''JsOptimizer''" by (simp add: js_optimizer_def)
  show ?thesis
    using gate_stub_signals_success [OF a b c d, of "[HookName ''JsOptimizer'', HookName ''minify'']"
        "JsOptimizer_init (\<lambda>p. None) minify_id" production]
      a b d
    by (simp only: n) simp
qed

section \<open>defineEntry\<close>

lemma defineEntry_None:
  "config_entry (config s) = None \<Longrightarrow> defineEntry fs pj ud s = Inr ([], s)"
  by (simp add: defineEntry_def)

lemma defineEntry_Nil:
  "config_entry (config s) = Some [] \<Longrightarrow> defineEntry fs pj ud s = Inr ([], s)"
  by (simp add: defineEntry_def)

lemma defineEntry_Some:
  "config_entry (config s) = Some es \<Longrightarrow> es \<noteq> [] \<Longrightarrow>
   defineEntry fs pj ud s =
     (case map_entries fs pj (if ud then THEME_DIST (env s) else THEME_SRC (env s)) es of
        Inl err \<Rightarrow> Inl err
      | Inr (logs, groups) \<Rightarrow> Inr (logs, s\<lparr>entry := Some (filter (\<lambda>g. g \<noteq> []) groups)\<rparr>))"
  by (simp add: defineEntry_def)

lemma defineEntry_Inr:
  assumes "defineEntry fs pj ud s = Inr (logs, s')" "config_entry (config s) = Some es" "es \<noteq> []"
  shows "\<exists>groups. map_entries fs pj (if ud then THEME_DIST (env s) else THEME_SRC (env s)) es = Inr (logs, groups)
    \<and> s' = s\<lparr>entry := Some (filter (\<lambda>g. g \<noteq> []) groups)\<rparr>"
proof (cases "map_entries fs pj (if ud then THEME_DIST (env s) else THEME_SRC (env s)) es")
  case (Inl a)
  with assms show ?thesis by (simp add: defineEntry_Some)
next
  case (Inr b)
  obtain l g where b: "b = (l, g)" by (cases b)
  with Inr assms show ?thesis by (simp add: defineEntry_Some)
qed


lemma in_filtered_groups:
  "x \<in> set (map (\<lambda>(k, pattern). filter P (G pattern)) es) \<Longrightarrow> p \<in> set x \<Longrightarrow> P p"
  by (induction es) auto

lemma filter_matches_kept:
  "filter_matches fs ms = Inr (logs, kept) \<Longrightarrow>
     kept = filter (\<lambda>p. p \<noteq> [] \<and> (\<exists>n. stat_size fs p = Some n \<and> 0 < n)) ms"
proof (induction ms arbitrary: logs kept)
  case Nil
  then show ?case by simp
next
  case (Cons e es)
  from Cons.prems obtain n where n: "stat_size fs e = Some n"
    by (cases "stat_size fs e") auto
  from Cons.prems n obtain l k where r: "filter_matches fs es = Inr (l, k)"
    by (cases "filter_matches fs es") auto
  from Cons.prems n r have k: "kept = (if 0 < n \<and> e \<noteq> [] then e # k else k)"
    by simp
  show ?case
    using Cons.IH [OF r] n k by auto
qed

lemma map_entries_groups:
  "map_entries fs pj base es = Inr (logs, groups) \<Longrightarrow>
     groups = map (\<lambda>(k, pattern). filter (\<lambda>p. p \<noteq> [] \<and> (\<exists>n. stat_size fs p = Some n \<and> 0 < n))
                (glob_sync fs (pj base pattern))) es"
proof (induction es arbitrary: logs groups)
  case Nil
  then show ?case by simp
next
  case (Cons a es)
  obtain k pattern where a: "a = (k, pattern)" by (cases a)
  from Cons.prems a obtain l1 kept where
    fm: "filter_matches fs (glob_sync fs (pj base pattern)) = Inr (l1, kept)"
    by (cases "filter_matches fs (glob_sync fs (pj base pattern))") auto
  from Cons.prems a fm obtain l2 gs where
    me: "map_entries fs pj base es = Inr (l2, gs)"
    by (cases "map_entries fs pj base es") auto
  from Cons.prems a fm me have g: "groups = kept # gs"
    by simp
  show ?case
    using filter_matches_kept [OF fm] Cons.IH [OF me] a g by simp
qed

text \<open>\<^verbatim>\<open>defineEntry\<close> returns whenever \<^verbatim>\<open>statSync\<close> does not throw.\<close>

lemma filter_matches_returns:
  "\<forall>p. stat_size fs p \<noteq> None \<Longrightarrow> \<exists>r. filter_matches fs ms = Inr r"
proof (induction ms)
  case Nil
  then show ?case by simp
next
  case (Cons e es)
  from Cons.prems obtain n where n: "stat_size fs e = Some n" by auto
  from Cons.IH [OF Cons.prems] obtain l k where "filter_matches fs es = Inr (l, k)" by auto
  with n show ?case by simp
qed

lemma map_entries_returns:
  "\<forall>p. stat_size fs p \<noteq> None \<Longrightarrow> \<exists>r. map_entries fs pj base es = Inr r"
proof (induction es)
  case Nil
  then show ?case by simp
next
  case (Cons a es)
  obtain k pattern where a: "a = (k, pattern)" by (cases a)
  from filter_matches_returns [OF Cons.prems, of "glob_sync fs (pj base pattern)"]
  obtain l1 kept where "filter_matches fs (glob_sync fs (pj base pattern)) = Inr (l1, kept)" by auto
  moreover from Cons.IH [OF Cons.prems] obtain l2 gs where "map_entries fs pj base es = Inr (l2, gs)"
    by auto
  ultimately show ?case using a by simp
qed

lemma defineEntry_returns:
  assumes "\<forall>p. stat_size fs p \<noteq> None"
  shows "\<exists>logs s'. defineEntry fs pj ud s = Inr (logs, s')"
proof (cases "config_entry (config s)")
  case None
  then show ?thesis by (simp add: defineEntry_def)
next
  case (Some es)
  from map_entries_returns [OF assms, of pj "if ud then THEME_DIST (env s) else THEME_SRC (env s)" es]
  obtain l gs where "map_entries fs pj (if ud then THEME_DIST (env s) else THEME_SRC (env s)) es = Inr (l, gs)"
    by auto
  with Some show ?thesis by (simp add: defineEntry_def)
qed

text \<open>
  Claim C10.  When \<^verbatim>\<open>defineEntry\<close> returns, a unit without entry configuration (none, or an
  object without keys) keeps \<^verbatim>\<open>this.entry\<close> as it was (undefined when it never was defined).
  Otherwise \<^verbatim>\<open>this.entry\<close> holds, for the configured patterns in their order, the matches of
  the pattern whose size is greater than zero, the groups without such a match dropped; so
  every group stored is non-empty and every path stored has a positive size.
\<close>

theorem defineEntry_stores_nonempty_groups:
  assumes "defineEntry fs path_join useDestination s = Inr (logs, s')"
  shows "(config_entry (config s) = None \<or> config_entry (config s) = Some [] \<longrightarrow> entry s' = entry s)
     \<and> (\<forall>entries. config_entry (config s) = Some entries \<and> entries \<noteq> [] \<longrightarrow>
           entry s' = Some (filter (\<lambda>g. g \<noteq> [])
             (map (\<lambda>(k, pattern). filter (\<lambda>p. p \<noteq> [] \<and> (\<exists>n. stat_size fs p = Some n \<and> 0 < n))
                (glob_sync fs (path_join
                   (if useDestination then THEME_DIST (env s) else THEME_SRC (env s)) pattern)))
                entries))
           \<and> (\<forall>g \<in> set (the (entry s')). g \<noteq> []
                 \<and> (\<forall>p \<in> set g. \<exists>n. stat_size fs p = Some n \<and> 0 < n)))"
proof (rule conjI)
  show "config_entry (config s) = None \<or> config_entry (config s) = Some [] \<longrightarrow> entry s' = entry s"
  proof
    assume "config_entry (config s) = None \<or> config_entry (config s) = Some []"
    then have "defineEntry fs path_join useDestination s = Inr ([], s)"
      using defineEntry_None defineEntry_Nil by blast
    with assms have "s' = s" by simp
    then show "entry s' = entry s" by simp
  qed
next
  show "\<forall>entries. config_entry (config s) = Some entries \<and> entries \<noteq> [] \<longrightarrow>
           entry s' = Some (filter (\<lambda>g. g \<noteq> [])
             (map (\<lambda>(k, pattern). filter (\<lambda>p. p \<noteq> [] \<and> (\<exists>n. stat_size fs p = Some n \<and> 0 < n))
                (glob_sync fs (path_join
                   (if useDestination then THEME_DIST (env s) else THEME_SRC (env s)) pattern)))
                entries))
           \<and> (\<forall>g \<in> set (the (entry s')). g \<noteq> []
                 \<and> (\<forall>p \<in> set g. \<exists>n. stat_size fs p = Some n \<and> 0 < n))"
  proof (intro allI impI)
  fix entries
  assume c: "config_entry (config s) = Some entries \<and> entries \<noteq> []"
  let ?base = "if useDestination then THEME_DIST (env s) else THEME_SRC (env s)"
  let ?keep = "\<lambda>p. p \<noteq> [] \<and> (\<exists>n. stat_size fs p = Some n \<and> 0 < n)"
  let ?G = "\<lambda>pattern. glob_sync fs (path_join ?base pattern)"
  from c have c1: "config_entry (config s) = Some entries" and c2: "entries \<noteq> []"
    by simp_all
  from defineEntry_Inr [OF assms c1 c2] obtain groups where
    me: "map_entries fs path_join ?base entries = Inr (logs, groups)"
    and s': "s' = s\<lparr>entry := Some (filter (\<lambda>g. g \<noteq> []) groups)\<rparr>"
    by (elim exE conjE)
  have e: "entry s' = Some (filter (\<lambda>g. g \<noteq> []) groups)"
    by (simp add: s')
  have g: "groups = map (\<lambda>(k, pattern). filter ?keep (?G pattern)) entries"
    by (rule map_entries_groups [OF me])
  have m: "?keep p" if "x \<in> set groups" "p \<in> set x" for x p
    using that(1) that(2) unfolding g
    by (rule in_filtered_groups [where P = ?keep and G = ?G])
  have q: "\<forall>x \<in> set (the (entry s')). x \<noteq> []
          \<and> (\<forall>p \<in> set x. \<exists>n. stat_size fs p = Some n \<and> 0 < n)"
  proof (intro ballI conjI)
    fix x assume "x \<in> set (the (entry s'))"
    then show "x \<noteq> []" by (simp add: e)
  next
    fix x p assume "x \<in> set (the (entry s'))" and p: "p \<in> set x"
    then have "x \<in> set groups" by (simp add: e)
    then have "?keep p" using p by (rule m)
    then show "\<exists>n. stat_size fs p = Some n \<and> 0 < n" by (rule conjunct2)
  qed
  have r: "entry s' = Some (filter (\<lambda>g. g \<noteq> [])
          (map (\<lambda>(k, pattern). filter ?keep (?G pattern)) entries))"
    by (simp only: e g)
  from r q show "entry s' = Some (filter (\<lambda>g. g \<noteq> [])
          (map (\<lambda>(k, pattern). filter ?keep (?G pattern)) entries))
        \<and> (\<forall>x \<in> set (the (entry s')). x \<noteq> []
          \<and> (\<forall>p \<in> set x. \<exists>n. stat_size fs p = Some n \<and> 0 < n))"
    by (rule conjI)
  qed
qed


theorem defineEntry_stores_nonempty_groups_witness:
  "defineEntry disk slash_join False js_compiler =
     Inr ([Console Log ''Skipping empty entry: src/js/empty.js'',
           Console Log ''Skipping empty entry: src/css/empty.css''],
          js_compiler\<lparr>entry := Some [[''src/js/a.js'']]\<rparr>)
   \<and> entry js_compiler = None
   \<and> entry (js_compiler\<lparr>entry := Some [[''src/js/a.js'']]\<rparr>) =
       Some (filter (\<lambda>g. g \<noteq> [])
         (map (\<lambda>(k, pattern). filter (\<lambda>p. p \<noteq> [] \<and> (\<exists>n. stat_size disk p = Some n \<and> 0 < n))
            (glob_sync disk (slash_join ''src'' pattern)))
            [(''main'', ''js/*.js''), (''styles'', ''css/*.css'')]))"
proof -
  have g1: "glob_sync disk (slash_join ''src'' ''js/*.js'') = [''src/js/a.js'', ''src/js/empty.js'']"
    by (simp add: disk_def slash_join_def)
  have g2: "glob_sync disk (slash_join ''src'' ''css/*.css'') = [''src/css/empty.css'']"
    by (simp add: disk_def slash_join_def)
  have s1: "stat_size disk ''src/js/a.js'' = Some 10" by (simp add: disk_def)
  have s2: "stat_size disk ''src/js/empty.js'' = Some 0" by (simp add: disk_def)
  have s3: "stat_size disk ''src/css/empty.css'' = Some 0" by (simp add: disk_def)
  have c: "config_entry (config js_compiler) = Some [(''main'', ''js/*.js''), (''styles'', ''css/*.css'')]"
    by (simp add: js_compiler_def)
  have b: "THEME_SRC (env js_compiler) = ''src''"
    by (simp add: js_compiler_def production_def)
  have n: "entry js_compiler = None"
    by (simp add: js_compiler_def)
  have run: "defineEntry disk slash_join False js_compiler =
     Inr ([Console Log ''Skipping empty entry: src/js/empty.js'',
           Console Log ''Skipping empty entry: src/css/empty.css''],
          js_compiler\<lparr>entry := Some [[''src/js/a.js'']]\<rparr>)"
    by (simp add: defineEntry_def c b g1 g2 s1 s2 s3)
  show ?thesis
    using defineEntry_stores_nonempty_groups [OF run] run n
    by (simp add: c b)
qed

section \<open>The run coordinator: abort and plugin selection\<close>

text \<open>What \<^verbatim>\<open>mount\<close>, \<^verbatim>\<open>validateResult\<close> and a publish cycle can leave in the trace.\<close>

lemma filter_matches_logs:
  "filter_matches fs ms = Inr (logs, kept) \<Longrightarrow> x \<in> set logs \<Longrightarrow> \<exists>l m. x = Console l m"
proof (induction ms arbitrary: logs kept)
  case Nil
  then show ?case by simp
next
  case (Cons e es)
  from Cons.prems(1) obtain n where n: "stat_size fs e = Some n"
    by (cases "stat_size fs e") auto
  from Cons.prems(1) n obtain l k where r: "filter_matches fs es = Inr (l, k)"
    by (cases "filter_matches fs es") auto
  from Cons.prems(1) n r have
    "logs = (if n = 0 then [Console Log (''Skipping empty entry: '' @ e)] else []) @ l"
    by simp
  with Cons.prems(2) have "x = Console Log (''Skipping empty entry: '' @ e) \<or> x \<in> set l"
    by (auto split: if_splits)
  then show ?case using Cons.IH [OF r] by blast
qed

lemma map_entries_logs:
  "map_entries fs pj base es = Inr (logs, groups) \<Longrightarrow> x \<in> set logs \<Longrightarrow> \<exists>l m. x = Console l m"
proof (induction es arbitrary: logs groups)
  case Nil
  then show ?case by simp
next
  case (Cons a es)
  obtain k pattern where a: "a = (k, pattern)" by (cases a)
  from Cons.prems(1) a obtain l1 kept where
    fm: "filter_matches fs (glob_sync fs (pj base pattern)) = Inr (l1, kept)"
    by (cases "filter_matches fs (glob_sync fs (pj base pattern))") auto
  from Cons.prems(1) a fm obtain l2 gs where
    me: "map_entries fs pj base es = Inr (l2, gs)"
    by (cases "map_entries fs pj base es") auto
  from Cons.prems(1) a fm me have "logs = l1 @ l2" by simp
  with Cons.prems(2) have "x \<in> set l1 \<or> x \<in> set l2" by simp
  then show ?case
    using filter_matches_logs [OF fm] Cons.IH [OF me] by blast
qed

lemma defineEntry_logs:
  assumes "defineEntry fs pj ud s = Inr (logs, s')" and "x \<in> set logs"
  shows "\<exists>l m. x = Console l m"
proof (cases "config_entry (config s)")
  case None
  with assms show ?thesis by (simp add: defineEntry_def)
next
  case (Some es)
  show ?thesis
  proof (cases "es = []")
    case True
    with Some assms show ?thesis by (simp add: defineEntry_def)
  next
    case False
    from assms(1) Some False obtain groups where
      "map_entries fs pj (if ud then THEME_DIST (env s) else THEME_SRC (env s)) es = Inr (logs, groups)"
      by (cases "map_entries fs pj (if ud then THEME_DIST (env s) else THEME_SRC (env s)) es")
         (auto simp: defineEntry_def)
    then show ?thesis using assms(2) by (rule map_entries_logs)
  qed
qed

lemma subscribe_effects:
  "x \<in> set (subscribe s h) \<Longrightarrow> \<exists>n hk hd. x = TM_subscribe n hk hd"
  by (simp add: subscribe_def split: if_splits)

lemma mount_effects:
  "x \<in> set (fst (mount fs pj cfg units)) \<Longrightarrow>
     (\<exists>l m. x = Console l m) \<or> (\<exists>n hk hd. x = TM_subscribe n hk hd)"
proof (induction units)
  case Nil
  then show ?case by simp
next
  case (Cons u units)
  obtain key ty h where u: "u = (key, ty, h)" by (cases u)
  show ?case
  proof (cases "map_of (cfg ty) key")
    case None
    with Cons.prems u show ?thesis by simp
  next
    case (Some c)
    show ?thesis
    proof (cases "defineEntry fs pj False (defineConfig c h)")
      case (Inl err)
      with Cons.prems u Some show ?thesis by simp
    next
      case (Inr r)
      obtain logs h' where r: "r = (logs, h')" by (cases r)
      obtain effs res where m: "mount fs pj cfg units = (effs, res)"
        by (cases "mount fs pj cfg units")
      have "fst (mount fs pj cfg (u # units)) =
              logs @ subscribe h' (mount_hook key (config_hook c)) @ effs"
        using u Some Inr r m by (cases res) simp_all
      with Cons.prems have "x \<in> set logs \<or> x \<in> set (subscribe h' (mount_hook key (config_hook c)))
          \<or> x \<in> set effs"
        by simp
      then show ?thesis
        using defineEntry_logs [of fs pj False "defineConfig c h" logs h' x] Inr r
          subscribe_effects [of x h'] Cons.IH m
        by auto
    qed
  qed
qed

lemma mount_no_publish: "TM_publish cat req \<notin> set (fst (mount fs pj cfg units))"
  using mount_effects [of "TM_publish cat req" fs pj cfg units] by auto

lemma mount_no_mount: "Call_mount cat \<notin> set (fst (mount fs pj cfg units))"
  using mount_effects [of "Call_mount cat" fs pj cfg units] by auto

lemma validateResult_effects:
  "x \<in> set (fst (validateResult e r ty)) \<Longrightarrow> \<exists>l m. x = Console l m"
  by (simp add: validateResult_def Let_def split: if_splits)

lemma publish_cycle_effects:
  "x \<in> set (fst (publish_cycle e publish cat req)) \<Longrightarrow>
     x = TM_publish cat req \<or> (\<exists>l m. x = Console l m)"
proof (cases "publish cat req")
  case (Fulfilled r)
  obtain effs out where v: "validateResult e r ''undefined'' = (effs, out)"
    by (cases "validateResult e r ''undefined''")
  have "fst (publish_cycle e publish cat req) = TM_publish cat req # effs"
    using Fulfilled v by (cases out) (simp_all add: publish_cycle_def)
  moreover assume "x \<in> set (fst (publish_cycle e publish cat req))"
  ultimately have "x = TM_publish cat req \<or> x \<in> set effs" by simp
  then show ?thesis using validateResult_effects [of x e r "''undefined''"] v by auto
next
  case (Rejected err)
  assume "x \<in> set (fst (publish_cycle e publish cat req))"
  with Rejected show ?thesis by (simp add: publish_cycle_def)
next
  case NeverSettles
  assume "x \<in> set (fst (publish_cycle e publish cat req))"
  with NeverSettles show ?thesis by (simp add: publish_cycle_def)
qed

lemma publish_cycle_head:
  "TM_publish cat req \<in> set (fst (publish_cycle e publish cat req))"
proof (cases "publish cat req")
  case (Fulfilled r)
  obtain effs out where v: "validateResult e r ''undefined'' = (effs, out)"
    by (cases "validateResult e r ''undefined''")
  have "fst (publish_cycle e publish cat req) = TM_publish cat req # effs"
    using Fulfilled v by (cases out) (simp_all add: publish_cycle_def)
  then show ?thesis by simp
next
  case (Rejected err)
  then show ?thesis by (simp add: publish_cycle_def)
next
  case NeverSettles
  then show ?thesis by (simp add: publish_cycle_def)
qed


lemma validateResult_throws:
  "some_nonempty (exceptions r) \<Longrightarrow> THEME_ENVIRONMENT e \<noteq> JStr ''development'' \<Longrightarrow>
     validateResult e r ty =
       ([Console Error (''Not all '' @ ty @ '' have been completed correctly: ''
           @ join '', '' (the (exceptions r)))],
        Threw (HarborError (''Not all '' @ ty @ '' have been completed correctly: ''
           @ join '', '' (the (exceptions r)))))"
  by (simp add: validateResult_def Let_def)

lemma validateResult_returns:
  "\<not> (some_nonempty (exceptions r) \<and> THEME_ENVIRONMENT e \<noteq> JStr ''development'') \<Longrightarrow>
     snd (validateResult e r ty) = Returned"
  by (auto simp add: validateResult_def Let_def)

lemma publish_cycle_passes:
  assumes "publish cat req = Fulfilled r"
    and "\<not> (some_nonempty (exceptions r) \<and> THEME_ENVIRONMENT e \<noteq> JStr ''development'')"
  shows "snd (publish_cycle e publish cat req) = Returned"
proof -
  obtain effs out where v: "validateResult e r ''undefined'' = (effs, out)"
    by (cases "validateResult e r ''undefined''")
  with validateResult_returns [OF assms(2), of "''undefined''"] have "out = Returned" by simp
  with assms(1) v show ?thesis by (simp add: publish_cycle_def)
qed

lemma publish_cycle_aborts:
  assumes "publish cat req = Fulfilled r"
    and "some_nonempty (exceptions r)" and "THEME_ENVIRONMENT e \<noteq> JStr ''development''"
  shows "publish_cycle e publish cat req =
     ([TM_publish cat req,
       Console Error (''Not all undefined have been completed correctly: ''
           @ join '', '' (the (exceptions r)))],
      rethrow (HarborError (''Not all undefined have been completed correctly: ''
           @ join '', '' (the (exceptions r)))))"
  using assms(1) validateResult_throws [OF assms(2,3), of "''undefined''"]
  by (simp add: publish_cycle_def)

lemma plugin_flags_nonempty:
  "plugin_flags cfgs flags \<noteq> [] \<longleftrightarrow>
     (\<exists>(arg, v) \<in> set flags. truthy v
        \<and> (\<exists>(k, c) \<in> set cfgs. base_name arg \<in> set (hook_array (config_hook c))))"
  by (auto simp: plugin_flags_def filter_empty_conv)

lemma plugin_flags_filter:
  "plugin_flags cfgs flags =
     map fst (filter (\<lambda>(arg, v). truthy v
        \<and> (\<exists>(k, c) \<in> set cfgs. base_name arg \<in> set (hook_array (config_hook c)))) flags)"
proof -
  have "(\<lambda>(arg, v). truthy v \<and>
          filter (\<lambda>(k, c). base_name arg \<in> set (hook_array (config_hook c))) cfgs \<noteq> [])
      = (\<lambda>(arg, v). truthy v
          \<and> (\<exists>(k, c) \<in> set cfgs. base_name arg \<in> set (hook_array (config_hook c))))"
    by (auto simp: filter_empty_conv fun_eq_iff)
  then show ?thesis by (simp add: plugin_flags_def)
qed

lemma plugin_phase_none:
  "plugin_flags (cfg Plugins) (args a) = [] \<Longrightarrow>
     plugin_phase fs pj e cfg publish plugins a = ([], Returned)"
  by (simp add: plugin_phase_def)

lemma plugin_phase_mount_fails:
  "plugin_flags (cfg Plugins) (args a) \<noteq> [] \<Longrightarrow> mount fs pj cfg plugins = (effs, Inl err) \<Longrightarrow>
     plugin_phase fs pj e cfg publish plugins a = (Call_mount Plugins # effs, rethrow err)"
  by (simp add: plugin_phase_def)

lemma plugin_phase_runs:
  "plugin_flags (cfg Plugins) (args a) \<noteq> [] \<Longrightarrow> mount fs pj cfg plugins = (effs, Inr ps) \<Longrightarrow>
     \<exists>line. fst (plugin_phase fs pj e cfg publish plugins a) =
       Call_mount Plugins # effs @ [Console Log line]
         @ fst (publish_cycle e publish Plugins
                  (Joined (join '','' (plugin_flags (cfg Plugins) (args a)))))"
  by (simp add: plugin_phase_def Let_def split_beta)

lemma plugin_phase_published:
  "(\<exists>req. TM_publish Plugins req \<in> set (fst (plugin_phase fs pj e cfg publish plugins a))) \<longleftrightarrow>
     (plugin_flags (cfg Plugins) (args a) \<noteq> [] \<and> (\<exists>ps. snd (mount fs pj cfg plugins) = Inr ps))"
proof (cases "plugin_flags (cfg Plugins) (args a) = []")
  case True
  then show ?thesis by (simp add: plugin_phase_none)
next
  case False
  obtain effs res where m: "mount fs pj cfg plugins = (effs, res)"
    by (cases "mount fs pj cfg plugins")
  have nomount: "\<And>req. TM_publish Plugins req \<notin> set effs"
    using mount_no_publish [of Plugins _ fs pj cfg plugins] m by simp
  show ?thesis
  proof (cases res)
    case (Inl err)
    with False m nomount show ?thesis by (simp add: plugin_phase_mount_fails)
  next
    case (Inr ps)
    from plugin_phase_runs [where cfg = cfg and a = a and fs = fs and pj = pj
        and plugins = plugins and effs = effs and ps = ps and e = e and publish = publish]
      False m Inr
    obtain line where "fst (plugin_phase fs pj e cfg publish plugins a) =
       Call_mount Plugins # effs @ [Console Log line]
         @ fst (publish_cycle e publish Plugins
                  (Joined (join '','' (plugin_flags (cfg Plugins) (args a)))))"
      by auto
    then have "TM_publish Plugins (Joined (join '','' (plugin_flags (cfg Plugins) (args a))))
        \<in> set (fst (plugin_phase fs pj e cfg publish plugins a))"
      using publish_cycle_head [of Plugins "Joined (join '','' (plugin_flags (cfg Plugins) (args a)))" e publish]
      by simp
    with False m Inr show ?thesis by auto
  qed
qed

lemma plugin_phase_request:
  assumes "TM_publish Plugins req \<in> set (fst (plugin_phase fs pj e cfg publish plugins a))"
  shows "req = Joined (join '','' (plugin_flags (cfg Plugins) (args a)))"
proof (cases "plugin_flags (cfg Plugins) (args a) = []")
  case True
  with assms show ?thesis by (simp add: plugin_phase_none)
next
  case False
  obtain effs res where m: "mount fs pj cfg plugins = (effs, res)"
    by (cases "mount fs pj cfg plugins")
  have nomount: "TM_publish Plugins req \<notin> set effs"
    using mount_no_publish [of Plugins req fs pj cfg plugins] m by simp
  show ?thesis
  proof (cases res)
    case (Inl err)
    with False m nomount assms show ?thesis by (simp add: plugin_phase_mount_fails)
  next
    case (Inr ps)
    from plugin_phase_runs [where cfg = cfg and a = a and fs = fs and pj = pj
        and plugins = plugins and effs = effs and ps = ps and e = e and publish = publish]
      False m Inr
    obtain line where "fst (plugin_phase fs pj e cfg publish plugins a) =
       Call_mount Plugins # effs @ [Console Log line]
         @ fst (publish_cycle e publish Plugins
                  (Joined (join '','' (plugin_flags (cfg Plugins) (args a)))))"
      by auto
    with assms nomount have "TM_publish Plugins req \<in> set (fst (publish_cycle e publish Plugins
                  (Joined (join '','' (plugin_flags (cfg Plugins) (args a))))))"
      by simp
    then show ?thesis
      using publish_cycle_effects by fastforce
  qed
qed


lemma Harbor_init_aborts:
  assumes m: "mount fs pj cfg workers = (effs, Inr workers')"
    and t: "init_tasks a workerHooks \<noteq> []"
    and p: "publish Workers (Tasks (init_tasks a workerHooks)) = Fulfilled r"
    and x: "some_nonempty (exceptions r)"
    and d: "THEME_ENVIRONMENT e \<noteq> JStr ''development''"
  shows "Harbor_init fs pj e cfg workerHooks publish workers plugins a =
     (Call_mount Workers # effs @
        [TM_publish Workers (Tasks (init_tasks a workerHooks)),
         Console Error (''Not all undefined have been completed correctly: ''
           @ join '', '' (the (exceptions r)))],
      rethrow (HarborError (''Not all undefined have been completed correctly: ''
           @ join '', '' (the (exceptions r)))))"
  using m t publish_cycle_aborts [where publish = publish, OF p x d]
  by (simp add: Harbor_init_def Let_def rethrow_def)

lemma Harbor_init_passes:
  assumes m: "mount fs pj cfg workers = (effs, Inr workers')"
    and pass: "init_tasks a workerHooks = [] \<or>
       (\<exists>r. publish Workers (Tasks (init_tasks a workerHooks)) = Fulfilled r
          \<and> \<not> (some_nonempty (exceptions r) \<and> THEME_ENVIRONMENT e \<noteq> JStr ''development''))"
  shows "\<exists>effs1. (\<forall>req. TM_publish Plugins req \<notin> set effs1) \<and>
     fst (Harbor_init fs pj e cfg workerHooks publish workers plugins a) =
       Call_mount Workers # effs @ effs1 @ fst (plugin_phase fs pj e cfg publish plugins a)"
proof (cases "init_tasks a workerHooks = []")
  case True
  have "fst (Harbor_init fs pj e cfg workerHooks publish workers plugins a) =
       Call_mount Workers # effs @ [Console Warning ''Harbor has not processed anything this time.'']
         @ fst (plugin_phase fs pj e cfg publish plugins a)"
    using m True by (simp add: Harbor_init_def Let_def split_beta)
  then show ?thesis by fastforce
next
  case False
  with pass obtain r where r: "publish Workers (Tasks (init_tasks a workerHooks)) = Fulfilled r"
    and ok: "\<not> (some_nonempty (exceptions r) \<and> THEME_ENVIRONMENT e \<noteq> JStr ''development'')"
    by blast
  let ?pc = "publish_cycle e publish Workers (Tasks (init_tasks a workerHooks))"
  have out: "snd ?pc = Returned"
    by (rule publish_cycle_passes [where publish = publish, OF r ok])
  have "fst (Harbor_init fs pj e cfg workerHooks publish workers plugins a) =
       Call_mount Workers # effs @ fst ?pc @ fst (plugin_phase fs pj e cfg publish plugins a)"
    using m False out by (simp add: Harbor_init_def Let_def split_beta)
  moreover have "\<forall>req. TM_publish Plugins req \<notin> set (fst ?pc)"
    using publish_cycle_effects [of _ e publish Workers "Tasks (init_tasks a workerHooks)"]
    by fastforce
  ultimately show ?thesis by blast
qed

text \<open>
  Claim C4.  When the workers were mounted, a workers publish cycle was issued and its result
  has a non-empty \<^verbatim>\<open>exceptions\<close> while the environment is not \<^verbatim>\<open>development\<close>, then \<^verbatim>\<open>init\<close>
  throws, and its trace holds neither a \<^verbatim>\<open>mount\<close> of the plugins nor a publish for them.
\<close>

theorem workers_failure_aborts_before_plugins:
  assumes "mount fs pj cfg workers = (effs, Inr workers')"
    and "init_tasks a workerHooks \<noteq> []"
    and "publish Workers (Tasks (init_tasks a workerHooks)) = Fulfilled r"
    and "some_nonempty (exceptions r)"
    and "THEME_ENVIRONMENT e \<noteq> JStr ''development''"
  shows "(\<exists>msg. snd (Harbor_init fs pj e cfg workerHooks publish workers plugins a) = Threw (HarborError msg))
     \<and> Call_mount Plugins \<notin> set (fst (Harbor_init fs pj e cfg workerHooks publish workers plugins a))
     \<and> (\<forall>req. TM_publish Plugins req \<notin> set (fst (Harbor_init fs pj e cfg workerHooks publish workers plugins a)))"
proof -
  have nm: "Call_mount Plugins \<notin> set effs"
    using mount_no_mount [of Plugins fs pj cfg workers] assms(1) by simp
  have np: "\<And>req. TM_publish Plugins req \<notin> set effs"
    using mount_no_publish [of Plugins _ fs pj cfg workers] assms(1) by simp
  show ?thesis
    using nm np by (simp add: Harbor_init_aborts [where publish = publish, OF assms] rethrow_def)
qed

text \<open>
  Claim C6, as amended.  Provided the run reaches the plugin stage (the workers were mounted,
  and the workers cycle, when there was one, was fulfilled with a result that
  \<^verbatim>\<open>validateResult\<close> lets pass) and mounting the plugins does not throw: a plugins publish is
  issued if and only if some flag of the rest arguments (the command line without \<^verbatim>\<open>task\<close>) is
  truthy and its base name is in the hook list of a configured plugin; and every plugins
  publish asks for exactly those flag names, in their order, joined by commas.
\<close>

theorem plugins_published_iff_flag:
  assumes "mount fs pj cfg workers = (effs, Inr workers')"
    and "init_tasks a workerHooks = [] \<or>
       (\<exists>r. publish Workers (Tasks (init_tasks a workerHooks)) = Fulfilled r
          \<and> \<not> (some_nonempty (exceptions r) \<and> THEME_ENVIRONMENT e \<noteq> JStr ''development''))"
    and "snd (mount fs pj cfg plugins) = Inr plugins'"
  shows "((\<exists>req. TM_publish Plugins req \<in> set (fst (Harbor_init fs pj e cfg workerHooks publish workers plugins a)))
        \<longleftrightarrow> (\<exists>(arg, v) \<in> set (args a). truthy v
               \<and> (\<exists>(k, c) \<in> set (cfg Plugins). base_name arg \<in> set (hook_array (config_hook c)))))
     \<and> (\<forall>req. TM_publish Plugins req \<in> set (fst (Harbor_init fs pj e cfg workerHooks publish workers plugins a))
           \<longrightarrow> req = Joined (join '','' (map fst (filter (\<lambda>(arg, v). truthy v
               \<and> (\<exists>(k, c) \<in> set (cfg Plugins). base_name arg \<in> set (hook_array (config_hook c))))
                 (args a)))))"
proof -
  from Harbor_init_passes [where publish = publish, OF assms(1,2)] obtain effs1 where
    q: "\<forall>req. TM_publish Plugins req \<notin> set effs1"
    and h: "fst (Harbor_init fs pj e cfg workerHooks publish workers plugins a) =
       Call_mount Workers # effs @ effs1 @ fst (plugin_phase fs pj e cfg publish plugins a)"
    by blast
  have np: "\<And>req. TM_publish Plugins req \<notin> set effs"
    using mount_no_publish [of Plugins _ fs pj cfg workers] assms(1) by simp
  have same: "\<And>req. TM_publish Plugins req \<in> set (fst (Harbor_init fs pj e cfg workerHooks publish workers plugins a))
      \<longleftrightarrow> TM_publish Plugins req \<in> set (fst (plugin_phase fs pj e cfg publish plugins a))"
    using q np by (simp add: h)
  have one: "(\<exists>req. TM_publish Plugins req \<in> set (fst (plugin_phase fs pj e cfg publish plugins a)))
      \<longleftrightarrow> (\<exists>(arg, v) \<in> set (args a). truthy v
               \<and> (\<exists>(k, c) \<in> set (cfg Plugins). base_name arg \<in> set (hook_array (config_hook c))))"
    using plugin_phase_published [of fs pj e cfg publish plugins a] assms(3)
    by (simp add: plugin_flags_nonempty)
  have two: "\<And>req. TM_publish Plugins req \<in> set (fst (plugin_phase fs pj e cfg publish plugins a))
      \<Longrightarrow> req = Joined (join '','' (map fst (filter (\<lambda>(arg, v). truthy v
               \<and> (\<exists>(k, c) \<in> set (cfg Plugins). base_name arg \<in> set (hook_array (config_hook c))))
                 (args a))))"
    using plugin_phase_request [of _ fs pj e cfg publish plugins a]
    by (simp add: plugin_flags_filter)
  show ?thesis
    using one two by (simp only: same) blast
qed

text \<open>The run of the concrete inputs: \<^verbatim>\<open>--task=stylesheets --watch\<close> with a failing worker.\<close>

lemma mount_sass:
  "mount disk slash_join harbor_cfg [(''SassCompiler'', Workers, sass_compiler)] =
     ([TM_subscribe ''SassCompiler'' [HookName ''SassCompiler'', HookName ''stylesheets''] InitHandler],
      Inr [(''SassCompiler'', Workers, defineConfig
             \<lparr>config_hook = HookString ''stylesheets'', config_entry = None\<rparr> sass_compiler)])"
  by (simp add: harbor_cfg_def defineEntry_def defineConfig_def subscribe_def initIfAccepted_def
      mount_hook_def sass_compiler_def)

lemma mount_watcher:
  "snd (mount disk slash_join harbor_cfg [(''Watcher'', Plugins, watcher)]) =
     Inr [(''Watcher'', Plugins, defineConfig
             \<lparr>config_hook = HookString ''watch'', config_entry = None\<rparr> watcher)]"
  by (simp add: harbor_cfg_def defineEntry_def defineConfig_def watcher_def)

lemma command_line_tasks: "init_tasks command_line [] = [''stylesheets'']"
  by (simp add: init_tasks_def command_line_def)

lemma watch_flag:
  "\<exists>(arg, v) \<in> set (args command_line). truthy v
     \<and> (\<exists>(k, c) \<in> set (harbor_cfg Plugins). base_name arg \<in> set (hook_array (config_hook c)))"
  by (simp add: command_line_def harbor_cfg_def)

lemma watch_selected:
  "map fst (filter (\<lambda>(arg, v). truthy v
     \<and> (\<exists>(k, c) \<in> set (harbor_cfg Plugins). base_name arg \<in> set (hook_array (config_hook c))))
       (args command_line)) = [''watch'']"
  by (simp add: command_line_def harbor_cfg_def)

theorem workers_failure_aborts_before_plugins_witness:
  "init_tasks command_line [] \<noteq> []
   \<and> sass_fails Workers (Tasks (init_tasks command_line [])) =
        Fulfilled \<lparr>completed = Some [''Cleaner''], exceptions = Some [''SassCompiler'']\<rparr>
   \<and> THEME_ENVIRONMENT production \<noteq> JStr ''development''
   \<and> (\<exists>msg. snd (Harbor_init disk slash_join production harbor_cfg [] sass_fails
          [(''SassCompiler'', Workers, sass_compiler)] [(''Watcher'', Plugins, watcher)] command_line)
        = Threw (HarborError msg))
   \<and> Call_mount Plugins \<notin> set (fst (Harbor_init disk slash_join production harbor_cfg [] sass_fails
          [(''SassCompiler'', Workers, sass_compiler)] [(''Watcher'', Plugins, watcher)] command_line))
   \<and> (\<forall>req. TM_publish Plugins req \<notin> set (fst (Harbor_init disk slash_join production harbor_cfg []
          sass_fails [(''SassCompiler'', Workers, sass_compiler)] [(''Watcher'', Plugins, watcher)]
          command_line)))"
proof -
  have t: "init_tasks command_line [] \<noteq> []"
    by (simp add: command_line_tasks)
  have p: "sass_fails Workers (Tasks (init_tasks command_line [])) =
        Fulfilled \<lparr>completed = Some [''Cleaner''], exceptions = Some [''SassCompiler'']\<rparr>"
    by (simp add: sass_fails_def)
  have x: "some_nonempty (exceptions \<lparr>completed = Some [''Cleaner''], exceptions = Some [''SassCompiler'']\<rparr>)"
    by simp
  have d: "THEME_ENVIRONMENT production \<noteq> JStr ''development''"
    by (simp add: production_def)
  show ?thesis
    using workers_failure_aborts_before_plugins [where publish = sass_fails, OF mount_sass t p x d,
        of "[(''Watcher'', Plugins, watcher)]"] t p d
    by blast
qed

text \<open>
  Claim C6 as it is stated fails in a production run whose workers cycle reports a failure:
  the truthy flag \<^verbatim>\<open>watch\<close> is the hook of the configured plugin \<^verbatim>\<open>Watcher\<close>, and no plugins
  publish is issued, because \<^verbatim>\<open>validateResult\<close> has thrown before.
\<close>

theorem flag_without_plugins_publish_counterexample:
  "\<not> ((\<exists>req. TM_publish Plugins req \<in> set (fst (Harbor_init disk slash_join production harbor_cfg []
          sass_fails [(''SassCompiler'', Workers, sass_compiler)] [(''Watcher'', Plugins, watcher)]
          command_line)))
       \<longleftrightarrow> (\<exists>(arg, v) \<in> set (args command_line). truthy v
             \<and> (\<exists>(k, c) \<in> set (harbor_cfg Plugins). base_name arg \<in> set (hook_array (config_hook c)))))"
proof -
  have t: "init_tasks command_line [] \<noteq> []"
    by (simp add: command_line_tasks)
  have p: "sass_fails Workers (Tasks (init_tasks command_line [])) =
        Fulfilled \<lparr>completed = Some [''Cleaner''], exceptions = Some [''SassCompiler'']\<rparr>"
    by (simp add: sass_fails_def)
  have x: "some_nonempty (exceptions \<lparr>completed = Some [''Cleaner''], exceptions = Some [''SassCompiler'']\<rparr>)"
    by simp
  have d: "THEME_ENVIRONMENT production \<noteq> JStr ''development''"
    by (simp add: production_def)
  have "\<And>req. TM_publish Plugins req \<notin> set (fst (Harbor_init disk slash_join production harbor_cfg []
          sass_fails [(''SassCompiler'', Workers, sass_compiler)] [(''Watcher'', Plugins, watcher)]
          command_line))"
    by (simp add: Harbor_init_aborts [where publish = sass_fails, OF mount_sass t p x d])
  with watch_flag show ?thesis by blast
qed

theorem plugins_published_iff_flag_witness:
  "(\<exists>req. TM_publish Plugins req \<in> set (fst (Harbor_init disk slash_join development harbor_cfg []
          sass_fails [(''SassCompiler'', Workers, sass_compiler)] [(''Watcher'', Plugins, watcher)]
          command_line)))
   \<and> {req. TM_publish Plugins req \<in> set (fst (Harbor_init disk slash_join development harbor_cfg []
          sass_fails [(''SassCompiler'', Workers, sass_compiler)] [(''Watcher'', Plugins, watcher)]
          command_line))} = {Joined ''watch''}"
proof -
  have p: "init_tasks command_line [] = [] \<or>
       (\<exists>r. sass_fails Workers (Tasks (init_tasks command_line [])) = Fulfilled r
          \<and> \<not> (some_nonempty (exceptions r) \<and> THEME_ENVIRONMENT development \<noteq> JStr ''development''))"
    by (simp add: sass_fails_def development_def)
  note main = plugins_published_iff_flag [where publish = sass_fails and e = development
      and workerHooks = "[]", OF mount_sass p mount_watcher]
  from main watch_flag have ex: "\<exists>req. TM_publish Plugins req \<in> set (fst (Harbor_init disk slash_join
          development harbor_cfg [] sass_fails [(''SassCompiler'', Workers, sass_compiler)]
          [(''Watcher'', Plugins, watcher)] command_line))"
    by blast
  from main have only: "\<And>req. TM_publish Plugins req \<in> set (fst (Harbor_init disk slash_join
          development harbor_cfg [] sass_fails [(''SassCompiler'', Workers, sass_compiler)]
          [(''Watcher'', Plugins, watcher)] command_line)) \<Longrightarrow> req = Joined ''watch''"
    by (simp add: watch_selected)
  from ex only show ?thesis by blast
qed

section \<open>The earlier driver: dispatch without awaiting\<close>

lemma dispatch_calls:
  "filter is_call (fst (dispatch isf thr ns)) = map Call_task (filter isf ns)"
proof (induction ns)
  case Nil
  then show ?case by simp
next
  case (Cons n ns)
  obtain effs waiting where d: "dispatch isf thr ns = (effs, waiting)"
    by (cases "dispatch isf thr ns")
  with Cons show ?case by simp
qed

lemma dispatch_no_done:
  "\<not> list_ex is_done (fst (dispatch isf thr ns))"
proof (induction ns)
  case Nil
  then show ?case by simp
next
  case (Cons n ns)
  obtain effs waiting where d: "dispatch isf thr ns = (effs, waiting)"
    by (cases "dispatch isf thr ns")
  with Cons show ?case by simp
qed

lemma dispatch_waiting:
  "snd (dispatch isf thr ns) = filter (\<lambda>n. isf n \<and> \<not> thr n) ns"
proof (induction ns)
  case Nil
  then show ?case by simp
next
  case (Cons n ns)
  obtain effs waiting where d: "dispatch isf thr ns = (effs, waiting)"
    by (cases "dispatch isf thr ns")
  with Cons show ?case by simp
qed

lemma resumed_no_call:
  "\<not> list_ex is_call (concat (map resume ns))"
  by (induction ns) (simp_all add: resume_def)

lemma no_call_calls_first:
  "\<not> list_ex is_call es \<Longrightarrow> calls_first es"
  by (induction es) simp_all

lemma calls_first_append:
  "\<not> list_ex is_done xs \<Longrightarrow> calls_first ys \<Longrightarrow> calls_first (xs @ ys)"
  by (induction xs) simp_all

lemma calls_first_tl:
  "calls_first (xs @ ys) \<Longrightarrow> calls_first ys"
  by (induction xs) simp_all

lemma sequential_has_call:
  "list_ex isf ns \<Longrightarrow> list_ex is_call (sequential_trace isf thr ns)"
  by (induction ns) auto

lemma sequential_append:
  "sequential_trace isf thr (xs @ ys) = sequential_trace isf thr xs @ sequential_trace isf thr ys"
  by (induction xs) simp_all

lemma sequential_not_calls_first:
  assumes "isf a" and "\<not> thr a" and "list_ex isf rest"
  shows "\<not> calls_first (sequential_trace isf thr (pre @ a # rest))"
proof
  assume "calls_first (sequential_trace isf thr (pre @ a # rest))"
  then have "calls_first (sequential_trace isf thr (a # rest))"
    unfolding sequential_append by (rule calls_first_tl)
  with assms(1,2) have "\<not> list_ex is_call (sequential_trace isf thr rest)"
    by (simp add: resume_def)
  with sequential_has_call [OF assms(3)] show False by blast
qed

text \<open>
  Claim C8.  For a non-empty task argument, the synchronous run of \<^verbatim>\<open>init\<close> calls the method
  of every task name that is a function, in the order of the command line, and no callback
  gets past its \<^verbatim>\<open>await\<close> in it: every callback whose method did not throw is left suspended.
  So in the whole trace, whatever the order in which the awaited values arrive, no task
  method is called after a completion line; and whenever a task whose method does not throw
  is followed by another task that is a function, the trace differs from the sequential one
  that the comment of line 41 describes.
\<close>

theorem tasks_dispatched_without_awaiting:
  assumes "t \<noteq> []"
  shows "filter is_call (fst (bin_init isf thr (Some t)))
           = map Call_task (filter isf (map trim (split_on CHR '','' t)))
     \<and> \<not> list_ex is_done (fst (bin_init isf thr (Some t)))
     \<and> snd (bin_init isf thr (Some t))
           = filter (\<lambda>n. isf n \<and> \<not> thr n) (map trim (split_on CHR '','' t))
     \<and> calls_first (bin_trace isf thr (Some t) settled)
     \<and> (\<forall>pre a rest. map trim (split_on CHR '','' t) = pre @ a # rest \<and> isf a \<and> \<not> thr a
            \<and> list_ex isf rest \<longrightarrow>
          bin_trace isf thr (Some t) settled
            \<noteq> sequential_trace isf thr (map trim (split_on CHR '','' t)))"
proof -
  let ?ns = "map trim (split_on CHR '','' t)"
  have b: "bin_init isf thr (Some t) = dispatch isf thr ?ns"
    using assms by (simp add: bin_init_def)
  have c1: "filter is_call (fst (bin_init isf thr (Some t))) = map Call_task (filter isf ?ns)"
    unfolding b by (rule dispatch_calls)
  have c2: "\<not> list_ex is_done (fst (bin_init isf thr (Some t)))"
    unfolding b by (rule dispatch_no_done)
  have c3: "snd (bin_init isf thr (Some t)) = filter (\<lambda>n. isf n \<and> \<not> thr n) ?ns"
    unfolding b by (rule dispatch_waiting)
  have c4: "calls_first (bin_trace isf thr (Some t) settled)"
    unfolding bin_trace_def
    by (rule calls_first_append [OF c2 no_call_calls_first [OF resumed_no_call]])
  have c5: "\<forall>pre a rest. ?ns = pre @ a # rest \<and> isf a \<and> \<not> thr a \<and> list_ex isf rest \<longrightarrow>
          bin_trace isf thr (Some t) settled \<noteq> sequential_trace isf thr ?ns"
  proof (intro allI impI notI)
    fix pre a rest
    assume h: "?ns = pre @ a # rest \<and> isf a \<and> \<not> thr a \<and> list_ex isf rest"
      and eq: "bin_trace isf thr (Some t) settled = sequential_trace isf thr ?ns"
    from h have "\<not> calls_first (sequential_trace isf thr (pre @ a # rest))"
      using sequential_not_calls_first by blast
    with h eq c4 show False by simp
  qed
  from c1 c2 c3 c4 c5 show ?thesis by blast
qed

lemma two_tasks: "map trim (split_on CHR '','' ''clean, stylesheets'') = [''clean'', ''stylesheets'']"
  by (simp add: trim_def is_space_def)

theorem tasks_dispatched_without_awaiting_witness:
  "''clean, stylesheets'' \<noteq> []
   \<and> filter is_call (fst (bin_init task_methods task_throws (Some ''clean, stylesheets'')))
        = [Call_task ''clean'', Call_task ''stylesheets'']
   \<and> snd (bin_init task_methods task_throws (Some ''clean, stylesheets'')) = [''clean'', ''stylesheets'']
   \<and> calls_first (bin_trace task_methods task_throws (Some ''clean, stylesheets'') [''stylesheets'', ''clean''])
   \<and> bin_trace task_methods task_throws (Some ''clean, stylesheets'') [''stylesheets'', ''clean'']
        \<noteq> sequential_trace task_methods task_throws [''clean'', ''stylesheets'']"
proof -
  have n: "''clean, stylesheets'' \<noteq> []" by simp
  have s: "[''clean'', ''stylesheets''] = [] @ ''clean'' # [''stylesheets'']
      \<and> task_methods ''clean'' \<and> \<not> task_throws ''clean'' \<and> list_ex task_methods [''stylesheets'']"
    by (simp add: task_methods_def task_throws_def)
  have f: "filter task_methods [''clean'', ''stylesheets''] = [''clean'', ''stylesheets'']"
    by (simp add: task_methods_def)
  have w: "filter (\<lambda>n. task_methods n \<and> \<not> task_throws n) [''clean'', ''stylesheets'']
      = [''clean'', ''stylesheets'']"
    by (simp add: task_methods_def task_throws_def)
  note main = tasks_dispatched_without_awaiting [OF n, of task_methods task_throws
      "[''stylesheets'', ''clean'']", unfolded two_tasks]
  from main s have "bin_trace task_methods task_throws (Some ''clean, stylesheets'') [''stylesheets'', ''clean'']
        \<noteq> sequential_trace task_methods task_throws [''clean'', ''stylesheets'']"
    by blast
  with main n show ?thesis
    by (simp only: f w list.map) simp
qed

section \<open>Where the code departs from the specification\<close>

lemma JsOptimizer_init_no_entry:
  "entry s = None \<or> entry s = Some [] \<Longrightarrow>
     JsOptimizer_init read_file minify s = (resolve s JUndefined, Returned)"
  by (auto simp: JsOptimizer_init_def)

lemma StyleguideHelper_init_empty:
  "entry s = Some [] \<Longrightarrow> StyleguideHelper_init w s = (resolve s JUndefined, Returned)"
  by (simp add: StyleguideHelper_init_def)

text \<open>
  Claim C1 fails on the code.  \<^verbatim>\<open>JsOptimizer.init\<close> with two scripts that cannot be read: the
  callback of each read calls \<^verbatim>\<open>resolve\<close> (line 45) and never \<^verbatim>\<open>done\<close>, so the unit signals
  twice and its \<^verbatim>\<open>init\<close> stays pending.  With one script that cannot be read and one that
  minifies to nothing, the unit signals \<^verbatim>\<open>resolve\<close> and then \<^verbatim>\<open>reject\<close> (lines 80-84).
\<close>

theorem JsOptimizer_resolves_twice:
  "signals (fst (JsOptimizer_init (\<lambda>p. None) minify_id (js_optimizer\<lparr>env := production\<rparr>)))
     = [JUndefined, JUndefined]
   \<and> snd (JsOptimizer_init (\<lambda>p. None) minify_id (js_optimizer\<lparr>env := production\<rparr>)) = Pending
   \<and> signals (fst (JsOptimizer_init first_unreadable minify_comment (js_optimizer\<lparr>env := production\<rparr>)))
     = [JUndefined, JBool True]"
  by (simp add: JsOptimizer_init_def optimize_file_def resolve_def reject_def js_optimizer_def
      first_unreadable_def minify_comment_def)

text \<open>
  Claim C3 fails on the code.  In a development run with one completed and one failed unit,
  \<^verbatim>\<open>validateResult\<close> returns without logging anything: the warning of lines 177-180 is
  the \<^verbatim>\<open>else\<close> branch of the test for completed units.
\<close>

theorem validateResult_mixed_result_silent:
  "validateResult development
     \<lparr>completed = Some [''Cleaner''], exceptions = Some [''SassCompiler'']\<rparr> ''undefined''
     = ([], Returned)"
  by (simp add: validateResult_def development_def)

lemma mount_hook_has_name:
  "hook_truthy h \<Longrightarrow> HookName n \<in> set (mount_hook n h)"
  by (cases h) (auto simp: mount_hook_def Let_def)

lemma constructor_hook_has_name:
  "HookName n \<in> set (constructor_hook n h)"
  by (cases h) (simp_all add: constructor_hook_def)

text \<open>
  Claim C5 fails on the code.  \<^verbatim>\<open>mount\<close> of a unit whose configuration has no hook subscribes
  it with the list \<^verbatim>\<open>[undefined]\<close>, which does not hold its name (the constructor of
  BaseService falls back to the name in that case).
\<close>

theorem mount_without_hook_omits_name:
  "fst (mount disk slash_join hookless_cfg [(''Cleaner'', Workers, cleaner)])
     = [TM_subscribe ''Cleaner'' [HookUndefined] InitHandler]
   \<and> constructor_hook ''Cleaner'' HookAbsent = [HookName ''Cleaner'']"
  by (simp add: hookless_cfg_def defineEntry_def defineConfig_def subscribe_def initIfAccepted_def
      mount_hook_def cleaner_def constructor_hook_def)

text \<open>
  Claim C7 fails on the code.  \<^verbatim>\<open>StyleguideHelper.init\<close> on a worker whose entry was never
  defined throws and signals nothing; \<^verbatim>\<open>JsOptimizer.init\<close> tests for that case and resolves.
\<close>

theorem StyleguideHelper_undefined_entry_throws:
  "StyleguideHelper_init story_files styleguide_helper
     = ([], Threw (TypeError ''Cannot read properties of undefined (reading map)''))
   \<and> signals (fst (JsOptimizer_init (\<lambda>p. None) minify_id (styleguide_helper)))
     = [JUndefined]"
  by (simp add: StyleguideHelper_init_def styleguide_helper_def JsOptimizer_init_def resolve_def)

lemma inherit_default_other:
  "k \<noteq> fst d \<Longrightarrow> inherit_default penv d k = penv k"
  by (simp add: inherit_default_def env_set_def env_get_def Let_def split: option.splits jsval.splits)


lemma parseInt_production: "parseInt (JStr ''production'') = None"
  by code_simp

lemma lower_production: "toLowerCase ''production'' = ''production''"
  by code_simp

lemma inherit_production:
  "penv ''THEME_ENVIRONMENT'' = None \<Longrightarrow>
     inherit_default penv (''THEME_ENVIRONMENT'', JStr ''production'') ''THEME_ENVIRONMENT''
       = Some ''production''"
  by (simp add: inherit_default_def env_set_def env_get_def Let_def parseInt_production
      lower_production)

lemma define_default_environment:
  assumes "penv ''THEME_ENVIRONMENT'' = None"
  shows "env_get (Environment_define penv) ''THEME_ENVIRONMENT'' = JStr ''production''"
proof -
  let ?p1 = "inherit_default penv (''THEME_PORT'', JNum 8080)"
  let ?p2 = "inherit_default ?p1 (''THEME_DEBUG'', JBool False)"
  let ?p3 = "inherit_default ?p2 (''THEME_ENVIRONMENT'', JStr ''production'')"
  let ?p4 = "inherit_default ?p3 (''THEME_STATIC_DIRECTORY'', JStr [])"
  let ?p5 = "inherit_default ?p4 (''THEME_TEST_PHASE'', JStr ''test'')"
  let ?p6 = "inherit_default ?p5 (''THEME_WEBSOCKET_PORT'', JNum 35729)"
  let ?p7 = "inherit_default ?p6 (''THEME_AS_CLI'', JBool False)"
  have d: "Environment_define penv = ?p7"
    by (simp add: Environment_define_def defaults_def)
  have "?p2 ''THEME_ENVIRONMENT'' = None"
    using assms by (simp add: inherit_default_other)
  then have "?p3 ''THEME_ENVIRONMENT'' = Some ''production''"
    by (rule inherit_production)
  then have "?p7 ''THEME_ENVIRONMENT'' = Some ''production''"
    by (simp add: inherit_default_other)
  then show ?thesis
    by (simp add: d env_get_def)
qed

lemma lower_false: "toLowerCase ''false'' = ''false''"
  by code_simp

lemma lower_true: "toLowerCase ''true'' = ''true''"
  by code_simp

lemma lower_one: "toLowerCase ''1'' = ''1''"
  by code_simp

lemma inherit_false_string:
  "penv k = Some v \<Longrightarrow> toLowerCase v \<in> set [''false'', ''0''] \<Longrightarrow>
     inherit_default penv (k, d) k = Some ''false''"
  by (simp add: inherit_default_def env_set_def env_get_def Let_def lower_false)

lemma inherit_true_string:
  "penv k = Some v \<Longrightarrow> toLowerCase v \<in> set [''true'', ''1''] \<Longrightarrow>
     toLowerCase v \<notin> set [''false'', ''0''] \<Longrightarrow>
     inherit_default penv (k, d) k = Some ''true''"
  by (simp add: inherit_default_def env_set_def env_get_def Let_def lower_true)

lemma define_THEME_DEBUG:
  "Environment_define penv ''THEME_DEBUG'' =
     inherit_default (inherit_default penv (''THEME_PORT'', JNum 8080)) (''THEME_DEBUG'', JBool False)
       ''THEME_DEBUG''"
  by (simp add: Environment_define_def defaults_def inherit_default_other)

text \<open>
  Claim C9 fails on the code in its second part.  \<^verbatim>\<open>parsed\<close> is \<^verbatim>\<open>process.env\<close>, which stores the
  text of whatever is assigned to it: for \<^verbatim>\<open>THEME_DEBUG=false\<close> the loop assigns the boolean and
  reads back the string \<^verbatim>\<open>'false'\<close>, which is truthy; \<^verbatim>\<open>'1'\<close> ends as the string \<^verbatim>\<open>'true'\<close>.  The
  first part holds: a missing \<^verbatim>\<open>THEME_ENVIRONMENT\<close> ends as \<^verbatim>\<open>'production'\<close>.
\<close>

theorem define_keeps_strings:
  "env_get (Environment_define (Map.empty(''THEME_DEBUG'' \<mapsto> ''false''))) ''THEME_DEBUG'' = JStr ''false''
   \<and> truthy (env_get (Environment_define (Map.empty(''THEME_DEBUG'' \<mapsto> ''false''))) ''THEME_DEBUG'')
   \<and> env_get (Environment_define (Map.empty(''THEME_DEBUG'' \<mapsto> ''1''))) ''THEME_DEBUG'' = JStr ''true''
   \<and> env_get (Environment_define (Map.empty(''THEME_DEBUG'' \<mapsto> ''false''))) ''THEME_ENVIRONMENT''
        = JStr ''production''"
proof -
  have a: "inherit_default (Map.empty(''THEME_DEBUG'' \<mapsto> ''false'')) (''THEME_PORT'', JNum 8080)
             ''THEME_DEBUG'' = Some ''false''"
    by (simp add: inherit_default_other)
  have "Environment_define (Map.empty(''THEME_DEBUG'' \<mapsto> ''false'')) ''THEME_DEBUG'' = Some ''false''"
    unfolding define_THEME_DEBUG
    by (rule inherit_false_string [where penv = "inherit_default (Map.empty(''THEME_DEBUG'' \<mapsto> ''false''))
          (''THEME_PORT'', JNum 8080)" and k = "''THEME_DEBUG''" and v = "''false''", OF a])
       (simp add: lower_false)
  then have one: "env_get (Environment_define (Map.empty(''THEME_DEBUG'' \<mapsto> ''false''))) ''THEME_DEBUG''
      = JStr ''false''"
    by (simp add: env_get_def)
  have b: "inherit_default (Map.empty(''THEME_DEBUG'' \<mapsto> ''1'')) (''THEME_PORT'', JNum 8080)
             ''THEME_DEBUG'' = Some ''1''"
    by (simp add: inherit_default_other)
  have "Environment_define (Map.empty(''THEME_DEBUG'' \<mapsto> ''1'')) ''THEME_DEBUG'' = Some ''true''"
    unfolding define_THEME_DEBUG
    by (rule inherit_true_string [where penv = "inherit_default (Map.empty(''THEME_DEBUG'' \<mapsto> ''1''))
          (''THEME_PORT'', JNum 8080)" and k = "''THEME_DEBUG''" and v = "''1''", OF b])
       (simp_all add: lower_one)
  then have two: "env_get (Environment_define (Map.empty(''THEME_DEBUG'' \<mapsto> ''1''))) ''THEME_DEBUG''
      = JStr ''true''"
    by (simp add: env_get_def)
  have three: "env_get (Environment_define (Map.empty(''THEME_DEBUG'' \<mapsto> ''false''))) ''THEME_ENVIRONMENT''
        = JStr ''production''"
    by (rule define_default_environment) simp
  from one two three show ?thesis by simp
qed

end
